theory Spec2Isabelle
  imports Main
begin

section \<open>The registry cleanup script \<^verbatim>\<open>manage/delete-registry-image.py\<close>\<close>

text \<open>
  The script talks to a Docker registry over HTTP, to the container runtime and to the
  file system, and reads the clock. Everything outside the script is an environment of
  operations over an abstract world \<open>'w\<close>; each operation returns its reply and the next
  world, so a reply may depend on everything that happened before (a deleted manifest is
  gone at the next fetch). Every function of the script returns what the Python function
  returns or the exception it raises, the world it leaves, and the calls and log lines it
  issued, in order. The interrupt handler of lines 11 to 16 and the reading of the
  configuration file are outside the model: a run is one call of \<^verbatim>\<open>main\<close> that is not
  interrupted, on a configuration already loaded.
\<close>

subsection \<open>Data\<close>

type_synonym repo = string
type_synonym tag = string
type_synonym digest = string

text \<open>The exceptions that leave a function of the script.\<close>

datatype exn =
    RequestException
  | HTTPError int
  | JSONDecodeError
  | ValueError
  | OverflowError
  | OSError

text \<open>
  A \<^verbatim>\<open>requests\<close> call raises (\<open>No_response\<close>) or returns a response with a status
  code and a body. \<open>Undecodable\<close> is a body on which \<^verbatim>\<open>response.json()\<close> raises;
  \<open>Decoded x\<close> is a JSON object of the documented shape, \<open>x\<close> holding the fields the
  script reads.
\<close>

datatype 'a body = Undecodable | Decoded 'a

datatype 'a reply = No_response | Response int "'a body"

text \<open>
  \<^verbatim>\<open>subprocess.run\<close>: the command could not be started (an \<^verbatim>\<open>OSError\<close>), or it ran
  and exited with a return code.
\<close>

datatype process = Not_started | Exit int

text \<open>
  What \<^verbatim>\<open>datetime.fromisoformat\<close> returns: the wall-clock fields as microseconds since
  0001-01-01T00:00:00, and the UTC offset in microseconds when the text carried one.
  An aware datetime is represented by its instant, wall clock minus offset: aware
  datetimes are compared, sorted and subtracted by instant.
\<close>

record datetime =
  wall :: int
  tzinfo :: "int option"

datatype level = INFO | ERROR

datatype message =
    Deleted_image repo tag digest
  | Skipping_no_images repo
  | Skipping_no_eligible_images repo
  | Skipping_within_retention_policy repo
  | Garbage_collection_completed
  | Garbage_collection_failed
  | Removing_orphaned_repository repo
  | Orphaned_repository_removed repo
  | Failed_to_remove_orphaned_repository repo
  | Error exn

text \<open>
  The calls the script issues and the lines it logs. \<open>GET_manifest\<close> carries the tag
  and \<open>GET_blob\<close>, \<open>DELETE_manifest\<close> the digest the URL is built from.
\<close>

datatype event =
    GET_catalog
  | GET_tags repo
  | GET_manifest repo tag
  | GET_blob repo digest
  | DELETE_manifest repo digest
  | RUN_garbage_collect
  | PATH_exists string
  | RUN_rm_rf string
  | LOG level message

record 'w env =
  http_get_catalog :: "'w \<Rightarrow> (string list option) reply \<times> 'w"
  http_get_tags :: "repo \<Rightarrow> 'w \<Rightarrow> (string list option) reply \<times> 'w"
  http_get_manifest :: "repo \<Rightarrow> tag \<Rightarrow> 'w \<Rightarrow> (string option \<times> string option) reply \<times> 'w"
  http_get_blob :: "repo \<Rightarrow> digest \<Rightarrow> 'w \<Rightarrow> (string option) reply \<times> 'w"
  http_delete_manifest :: "repo \<Rightarrow> digest \<Rightarrow> 'w \<Rightarrow> unit reply \<times> 'w"
  run_registry_garbage_collect :: "'w \<Rightarrow> process \<times> 'w"
  os_path_exists :: "string \<Rightarrow> 'w \<Rightarrow> bool \<times> 'w"
  run_rm :: "string \<Rightarrow> 'w \<Rightarrow> process \<times> 'w"
  datetime_now_utc :: "'w \<Rightarrow> int \<times> 'w"
  datetime_fromisoformat :: "string \<Rightarrow> datetime option"

text \<open>
  The configuration, as loaded at lines 18 to 40. \<open>REGISTRY\<close> only prefixes every URL
  and \<open>LOG_FILE\<close> names the log: neither is modelled.
\<close>

record config =
  DEFAULT_DAYS_THRESHOLD :: int
  DEFAULT_RECENT_IMAGES :: int
  EXCLUDE_REPOS :: "string list"
  REPOSITORY_PATH :: string
  SPECIFIC_RECENT_IMAGES :: "string \<rightharpoonup> int"
  SPECIFIC_DAYS_THRESHOLD :: "string \<rightharpoonup> int"

type_synonym ('a, 'w) outcome = "(exn + 'a) \<times> 'w \<times> event list"

type_synonym tag_detail = "tag \<times> int \<times> digest"

subsection \<open>Helpers\<close>

definition prepend :: "event list \<Rightarrow> ('a, 'w) outcome \<Rightarrow> ('a, 'w) outcome" where
  "prepend es out = (case out of (r, w, es') \<Rightarrow> (r, w, es @ es'))"

definition events :: "('a, 'w) outcome \<Rightarrow> event list" where
  "events out = snd (snd out)"

definition result :: "('a, 'w) outcome \<Rightarrow> exn + 'a" where
  "result out = fst out"

text \<open>Python truthiness of an optional string: \<^verbatim>\<open>None\<close> and \<^verbatim>\<open>""\<close> are false.\<close>

definition truthy :: "string option \<Rightarrow> bool" where
  "truthy s = (case s of None \<Rightarrow> False | Some t \<Rightarrow> t \<noteq> [])"

subsection \<open>Utility functions (lines 51 to 94)\<close>

text \<open>\<^verbatim>\<open>raise_for_status\<close> raises on a 4xx or 5xx status.\<close>

definition fetch_repositories :: "'w env \<Rightarrow> 'w \<Rightarrow> (string list, 'w) outcome" where
  "fetch_repositories E w =
     (case http_get_catalog E w of (reply, w') \<Rightarrow>
        (case reply of
           No_response \<Rightarrow> (Inl RequestException, w', [GET_catalog])
         | Response status_code b \<Rightarrow>
             if 400 \<le> status_code \<and> status_code < 600
             then (Inl (HTTPError status_code), w', [GET_catalog])
             else (case b of
                     Undecodable \<Rightarrow> (Inl JSONDecodeError, w', [GET_catalog])
                   | Decoded repositories \<Rightarrow>
                       (Inr (case repositories of None \<Rightarrow> [] | Some rs \<Rightarrow> rs), w', [GET_catalog]))))"

definition fetch_image_tags :: "'w env \<Rightarrow> repo \<Rightarrow> 'w \<Rightarrow> (string list, 'w) outcome" where
  "fetch_image_tags E repository w =
     (case http_get_tags E repository w of (reply, w') \<Rightarrow>
        (case reply of
           No_response \<Rightarrow> (Inl RequestException, w', [GET_tags repository])
         | Response status_code b \<Rightarrow>
             if status_code \<noteq> 200 then (Inr [], w', [GET_tags repository])
             else (case b of
                     Undecodable \<Rightarrow> (Inl JSONDecodeError, w', [GET_tags repository])
                   | Decoded tags \<Rightarrow>
                       (Inr (case tags of None \<Rightarrow> [] | Some ts \<Rightarrow> ts), w', [GET_tags repository]))))"

text \<open>
  The Python function returns the triple (manifest, digest, config digest) or three
  \<^verbatim>\<open>None\<close>s. The manifest is only tested for truth by the caller, and it is a
  non-empty object whenever its config digest is true: \<open>Some (digest, config_digest)\<close>
  stands for the triple, \<open>None\<close> for the three \<^verbatim>\<open>None\<close>s.
\<close>

definition fetch_manifest_and_config_digest ::
  "'w env \<Rightarrow> repo \<Rightarrow> tag \<Rightarrow> 'w \<Rightarrow> ((string option \<times> string option) option, 'w) outcome" where
  "fetch_manifest_and_config_digest E repository tag w =
     (case http_get_manifest E repository tag w of (reply, w') \<Rightarrow>
        (case reply of
           No_response \<Rightarrow> (Inl RequestException, w', [GET_manifest repository tag])
         | Response status_code b \<Rightarrow>
             if status_code = 200 then
               (case b of
                  Undecodable \<Rightarrow> (Inl JSONDecodeError, w', [GET_manifest repository tag])
                | Decoded (digest, config_digest) \<Rightarrow>
                    if \<not> truthy config_digest then (Inr None, w', [GET_manifest repository tag])
                    else (Inr (Some (digest, config_digest)), w', [GET_manifest repository tag]))
             else (Inr None, w', [GET_manifest repository tag])))"

text \<open>
  Line 84: \<^verbatim>\<open>re.sub(r'(?<=\+\d{2}):(\d)$', r'0\1', created_date[:-1])\<close>.
  The pattern is anchored by \<^verbatim>\<open>$\<close>, which matches at the end of the text and before a
  newline that ends the text. So the match, when there is one, is a colon and a digit
  that end the text (or stand before its final newline) and follow a plus sign and two
  digits; the colon is replaced by a zero. \<open>sub_at_end\<close> works on the reversed text.
  A text is a list of 8-bit characters here, the code points below 256; among them the
  class \<^verbatim>\<open>\d\<close> is \<^verbatim>\<open>0\<close> to \<^verbatim>\<open>9\<close>.
\<close>

definition digit :: "char \<Rightarrow> bool" where
  "digit c = (c \<in> set ''0123456789'')"

fun sub_at_end :: "string \<Rightarrow> string" where
  "sub_at_end (m # c # h2 # h1 # p # pre) =
     (if digit m \<and> c = CHR '':'' \<and> digit h2 \<and> digit h1 \<and> p = CHR ''+''
      then m # CHR ''0'' # h2 # h1 # p # pre
      else m # c # h2 # h1 # p # pre)"
| "sub_at_end r = r"

definition re_sub_offset :: "string \<Rightarrow> string" where
  "re_sub_offset s =
     (case rev s of
        [] \<Rightarrow> []
      | n # r \<Rightarrow> if n = CHR 0x0A then rev (n # sub_at_end r) else rev (sub_at_end (n # r)))"

definition fixed_date :: "string \<Rightarrow> string" where
  "fixed_date created_date = re_sub_offset (butlast created_date)"

text \<open>Line 86: a parsed datetime without offset is taken as UTC.\<close>

definition instant :: "datetime \<Rightarrow> int" where
  "instant dt = (case tzinfo dt of None \<Rightarrow> wall dt | Some offset \<Rightarrow> wall dt - offset)"

definition fetch_creation_date :: "'w env \<Rightarrow> repo \<Rightarrow> digest \<Rightarrow> 'w \<Rightarrow> (int option, 'w) outcome" where
  "fetch_creation_date E repository config_digest w =
     (case http_get_blob E repository config_digest w of (reply, w') \<Rightarrow>
        (case reply of
           No_response \<Rightarrow> (Inl RequestException, w', [GET_blob repository config_digest])
         | Response status_code b \<Rightarrow>
             if status_code = 200 then
               (case b of
                  Undecodable \<Rightarrow> (Inl JSONDecodeError, w', [GET_blob repository config_digest])
                | Decoded created_date \<Rightarrow>
                    (case created_date of
                       None \<Rightarrow> (Inr None, w', [GET_blob repository config_digest])
                     | Some c \<Rightarrow>
                         if c = [] then (Inr None, w', [GET_blob repository config_digest])
                         else (case datetime_fromisoformat E (fixed_date c) of
                                 None \<Rightarrow> (Inl ValueError, w', [GET_blob repository config_digest])
                               | Some dt \<Rightarrow>
                                   (Inr (Some (instant dt)), w', [GET_blob repository config_digest]))))
             else (Inr None, w', [GET_blob repository config_digest])))"

definition delete_image :: "'w env \<Rightarrow> repo \<Rightarrow> tag \<Rightarrow> digest \<Rightarrow> 'w \<Rightarrow> (unit, 'w) outcome" where
  "delete_image E repository tag digest w =
     (case http_delete_manifest E repository digest w of (reply, w') \<Rightarrow>
        (case reply of
           No_response \<Rightarrow> (Inl RequestException, w', [DELETE_manifest repository digest])
         | Response status_code b \<Rightarrow>
             if status_code = 202
             then (Inr (), w', [DELETE_manifest repository digest,
                                LOG INFO (Deleted_image repository tag digest)])
             else (Inr (), w', [DELETE_manifest repository digest])))"

subsection \<open>Garbage collection and the orphan sweep (lines 97 to 122)\<close>

text \<open>
  \<^verbatim>\<open>check=True\<close> raises \<^verbatim>\<open>CalledProcessError\<close> on a return code other than zero,
  which line 105 catches; a command that cannot be started raises an \<^verbatim>\<open>OSError\<close>,
  which it does not catch.
\<close>

definition run_garbage_collection :: "'w env \<Rightarrow> 'w \<Rightarrow> (unit, 'w) outcome" where
  "run_garbage_collection E w =
     (case run_registry_garbage_collect E w of (p, w') \<Rightarrow>
        (case p of
           Not_started \<Rightarrow> (Inl OSError, w', [RUN_garbage_collect])
         | Exit returncode \<Rightarrow>
             if returncode = 0
             then (Inr (), w', [RUN_garbage_collect, LOG INFO Garbage_collection_completed])
             else (Inr (), w', [RUN_garbage_collect, LOG ERROR Garbage_collection_failed])))"

text \<open>\<^verbatim>\<open>os.path.join\<close> of two components (posixpath).\<close>

definition os_path_join :: "string \<Rightarrow> string \<Rightarrow> string" where
  "os_path_join a b =
     (if b \<noteq> [] \<and> hd b = CHR ''/'' then b
      else if a = [] \<or> last a = CHR ''/'' then a @ b
      else a @ ''/'' @ b)"

text \<open>
  Lines 115 to 122, the body of \<^verbatim>\<open>if not tags\<close>. The \<^verbatim>\<open>except Exception\<close> of line 121
  catches both failures of \<^verbatim>\<open>rm\<close>.
\<close>

definition remove_orphaned :: "config \<Rightarrow> 'w env \<Rightarrow> repo \<Rightarrow> 'w \<Rightarrow> 'w \<times> event list" where
  "remove_orphaned C E repo w =
     (let repo_path = os_path_join (REPOSITORY_PATH C) repo in
      case os_path_exists E repo_path w of (present, w1) \<Rightarrow>
        if present then
          (case run_rm E repo_path w1 of (p, w2) \<Rightarrow>
             if p = Exit 0
             then (w2, [LOG INFO (Removing_orphaned_repository repo), PATH_exists repo_path,
                        RUN_rm_rf repo_path, LOG INFO (Orphaned_repository_removed repo)])
             else (w2, [LOG INFO (Removing_orphaned_repository repo), PATH_exists repo_path,
                        RUN_rm_rf repo_path, LOG ERROR (Failed_to_remove_orphaned_repository repo)]))
        else (w1, [LOG INFO (Removing_orphaned_repository repo), PATH_exists repo_path]))"

text \<open>The loop of lines 112 to 122.\<close>

fun remove_empty_loop :: "config \<Rightarrow> 'w env \<Rightarrow> repo list \<Rightarrow> 'w \<Rightarrow> (unit, 'w) outcome" where
  "remove_empty_loop C E [] w = (Inr (), w, [])"
| "remove_empty_loop C E (repo # repositories) w =
     (case fetch_image_tags E repo w of
        (Inl e, w1, es1) \<Rightarrow> (Inl e, w1, es1)
      | (Inr tags, w1, es1) \<Rightarrow>
          if tags = [] then
            (case remove_orphaned C E repo w1 of (w2, es2) \<Rightarrow>
               prepend (es1 @ es2) (remove_empty_loop C E repositories w2))
          else prepend es1 (remove_empty_loop C E repositories w1))"

definition remove_empty_repositories :: "config \<Rightarrow> 'w env \<Rightarrow> 'w \<Rightarrow> (unit, 'w) outcome" where
  "remove_empty_repositories C E w =
     (case fetch_repositories E w of
        (Inl e, w1, es1) \<Rightarrow> (Inl e, w1, es1)
      | (Inr repositories, w1, es1) \<Rightarrow> prepend es1 (remove_empty_loop C E repositories w1))"

subsection \<open>Main logic (lines 125 to 167)\<close>

text \<open>The loop of lines 138 to 147: one tag detail per tag that resolves.\<close>

fun resolve_tags :: "'w env \<Rightarrow> repo \<Rightarrow> tag list \<Rightarrow> 'w \<Rightarrow> (tag_detail list, 'w) outcome" where
  "resolve_tags E repository [] w = (Inr [], w, [])"
| "resolve_tags E repository (tag # tags) w =
     (case fetch_manifest_and_config_digest E repository tag w of
        (Inl e, w1, es1) \<Rightarrow> (Inl e, w1, es1)
      | (Inr None, w1, es1) \<Rightarrow> prepend es1 (resolve_tags E repository tags w1)
      | (Inr (Some (digest, config_digest)), w1, es1) \<Rightarrow>
          (case (digest, config_digest) of
             (Some d, Some c) \<Rightarrow>
               if d = [] \<or> c = [] then prepend es1 (resolve_tags E repository tags w1)
               else
                 (case fetch_creation_date E repository c w1 of
                    (Inl e, w2, es2) \<Rightarrow> (Inl e, w2, es1 @ es2)
                  | (Inr None, w2, es2) \<Rightarrow>
                      prepend (es1 @ es2) (resolve_tags E repository tags w2)
                  | (Inr (Some creation_date), w2, es2) \<Rightarrow>
                      (case resolve_tags E repository tags w2 of
                         (Inl e, w3, es3) \<Rightarrow> (Inl e, w3, es1 @ es2 @ es3)
                       | (Inr tag_details, w3, es3) \<Rightarrow>
                           (Inr ((tag, creation_date, d) # tag_details), w3, es1 @ es2 @ es3)))
           | _ \<Rightarrow> prepend es1 (resolve_tags E repository tags w1)))"

text \<open>
  Line 153: \<^verbatim>\<open>sort\<close> with \<^verbatim>\<open>reverse=True\<close> orders by descending key and keeps the
  input order of equal keys. Line 154: the slice \<^verbatim>\<open>[:n]\<close>, where a negative \<open>n\<close>
  counts from the end.
\<close>

definition sort_descending :: "tag_detail list \<Rightarrow> tag_detail list" where
  "sort_descending tag_details = sort_key (\<lambda>x. - fst (snd x)) tag_details"

definition slice_to :: "int \<Rightarrow> 'a list \<Rightarrow> 'a list" where
  "slice_to n xs = (if 0 \<le> n then take (nat n) xs else take (length xs - nat (- n)) xs)"

text \<open>
  Line 155: \<^verbatim>\<open>datetime.now(timezone.utc) - timedelta(days=days_threshold)\<close>. A
  \<^verbatim>\<open>timedelta\<close> holds at most 999999999 days, and a datetime lies between the years 1
  and 9999: both raise \<^verbatim>\<open>OverflowError\<close> otherwise.
\<close>

definition microseconds_per_day :: int where
  "microseconds_per_day = 86400000000"

definition datetime_max :: int where
  "datetime_max = 3652059 * microseconds_per_day - 1"

definition minus_days :: "int \<Rightarrow> int \<Rightarrow> exn + int" where
  "minus_days now days =
     (if 999999999 < \<bar>days\<bar> then Inl OverflowError
      else let t = now - days * microseconds_per_day
           in if t < 0 \<or> datetime_max < t then Inl OverflowError else Inr t)"

text \<open>The loop of lines 158 to 164; it returns \<^verbatim>\<open>deleted_count\<close>.\<close>

fun delete_loop ::
  "'w env \<Rightarrow> repo \<Rightarrow> tag set \<Rightarrow> int \<Rightarrow> tag_detail list \<Rightarrow> 'w \<Rightarrow> (nat, 'w) outcome" where
  "delete_loop E repository recent_tags threshold_date [] w = (Inr 0, w, [])"
| "delete_loop E repository recent_tags threshold_date ((tag, creation_date, digest) # rest) w =
     (if tag \<in> recent_tags then delete_loop E repository recent_tags threshold_date rest w
      else if creation_date < threshold_date then
        (case delete_image E repository tag digest w of
           (Inl e, w1, es1) \<Rightarrow> (Inl e, w1, es1)
         | (Inr u, w1, es1) \<Rightarrow>
             (case delete_loop E repository recent_tags threshold_date rest w1 of
                (Inl e, w2, es2) \<Rightarrow> (Inl e, w2, es1 @ es2)
              | (Inr deleted_count, w2, es2) \<Rightarrow> (Inr (Suc deleted_count), w2, es1 @ es2)))
      else delete_loop E repository recent_tags threshold_date rest w)"

text \<open>Lines 153 to 167: what \<^verbatim>\<open>process_repository\<close> does with the resolved tag details.\<close>

definition process_tag_details ::
  "'w env \<Rightarrow> repo \<Rightarrow> int \<Rightarrow> int \<Rightarrow> tag_detail list \<Rightarrow> 'w \<Rightarrow> (unit, 'w) outcome" where
  "process_tag_details E repository recent_count days_threshold tag_details w =
     (let sorted = sort_descending tag_details;
          recent_tags = set (map fst (slice_to recent_count sorted))
      in case datetime_now_utc E w of (now, w1) \<Rightarrow>
           (case minus_days now days_threshold of
              Inl e \<Rightarrow> (Inl e, w1, [])
            | Inr threshold_date \<Rightarrow>
                (case delete_loop E repository recent_tags threshold_date sorted w1 of
                   (Inl e, w2, es) \<Rightarrow> (Inl e, w2, es)
                 | (Inr deleted_count, w2, es) \<Rightarrow>
                     if deleted_count = 0
                     then (Inr (), w2, es @ [LOG INFO (Skipping_within_retention_policy repository)])
                     else (Inr (), w2, es))))"

definition process_repository :: "config \<Rightarrow> 'w env \<Rightarrow> repo \<Rightarrow> 'w \<Rightarrow> (unit, 'w) outcome" where
  "process_repository C E repository w =
     (if repository \<in> set (EXCLUDE_REPOS C) then (Inr (), w, [])
      else
        (case fetch_image_tags E repository w of
           (Inl e, w1, es1) \<Rightarrow> (Inl e, w1, es1)
         | (Inr tags, w1, es1) \<Rightarrow>
             if tags = [] then (Inr (), w1, es1 @ [LOG INFO (Skipping_no_images repository)])
             else
               (let recent_count =
                      (case SPECIFIC_RECENT_IMAGES C repository of
                         Some n \<Rightarrow> n | None \<Rightarrow> DEFAULT_RECENT_IMAGES C);
                    days_threshold =
                      (case SPECIFIC_DAYS_THRESHOLD C repository of
                         Some n \<Rightarrow> n | None \<Rightarrow> DEFAULT_DAYS_THRESHOLD C)
                in case resolve_tags E repository tags w1 of
                     (Inl e, w2, es2) \<Rightarrow> (Inl e, w2, es1 @ es2)
                   | (Inr tag_details, w2, es2) \<Rightarrow>
                       if tag_details = []
                       then (Inr (), w2,
                             es1 @ es2 @ [LOG INFO (Skipping_no_eligible_images repository)])
                       else prepend (es1 @ es2)
                              (process_tag_details E repository recent_count days_threshold
                                 tag_details w2))))"

subsection \<open>Entry point (lines 170 to 178)\<close>

text \<open>The loop of lines 173 and 174.\<close>

fun process_repositories :: "config \<Rightarrow> 'w env \<Rightarrow> repo list \<Rightarrow> 'w \<Rightarrow> (unit, 'w) outcome" where
  "process_repositories C E [] w = (Inr (), w, [])"
| "process_repositories C E (repo # repositories) w =
     (case process_repository C E repo w of
        (Inl e, w1, es1) \<Rightarrow> (Inl e, w1, es1)
      | (Inr u, w1, es1) \<Rightarrow> prepend es1 (process_repositories C E repositories w1))"

text \<open>The \<^verbatim>\<open>try\<close> block of lines 172 to 176.\<close>

definition main_try :: "config \<Rightarrow> 'w env \<Rightarrow> 'w \<Rightarrow> (unit, 'w) outcome" where
  "main_try C E w =
     (case fetch_repositories E w of
        (Inl e, w1, es1) \<Rightarrow> (Inl e, w1, es1)
      | (Inr repositories, w1, es1) \<Rightarrow>
          (case process_repositories C E repositories w1 of
             (Inl e, w2, es2) \<Rightarrow> (Inl e, w2, es1 @ es2)
           | (Inr u, w2, es2) \<Rightarrow>
               (case run_garbage_collection E w2 of
                  (Inl e, w3, es3) \<Rightarrow> (Inl e, w3, es1 @ es2 @ es3)
                | (Inr u', w3, es3) \<Rightarrow>
                    prepend (es1 @ es2 @ es3) (remove_empty_repositories C E w3))))"

definition main :: "config \<Rightarrow> 'w env \<Rightarrow> 'w \<Rightarrow> 'w \<times> event list" where
  "main C E w =
     (case main_try C E w of
        (Inl e, w', es) \<Rightarrow> (w', es @ [LOG ERROR (Error e)])
      | (Inr u, w', es) \<Rightarrow> (w', es))"

subsection \<open>The retention decision, without its effects\<close>

text \<open>
  The branch the loop of lines 158 to 164 takes for each tag detail, in the order the
  loop visits them: line 160 skips a protected tag, line 163 deletes, anything else is
  kept for its age.
\<close>

datatype decision = Protected | Keep | Delete

definition decide :: "tag_detail list \<Rightarrow> int \<Rightarrow> int \<Rightarrow> (tag_detail \<times> decision) list" where
  "decide tag_details recent_count threshold_date =
     (let sorted = sort_descending tag_details;
          recent_tags = set (map fst (slice_to recent_count sorted))
      in map (\<lambda>(tag, creation_date, digest).
                ((tag, creation_date, digest),
                 if tag \<in> recent_tags then Protected
                 else if creation_date < threshold_date then Delete
                 else Keep))
             sorted)"

definition protected_tags :: "(tag_detail \<times> decision) list \<Rightarrow> tag list" where
  "protected_tags ds = map (\<lambda>d. fst (fst d)) (filter (\<lambda>d. snd d = Protected) ds)"

text \<open>
  The tags eligible for deletion, in the specification's sense: not protected and older
  than the threshold, that is the tags marked \<open>Delete\<close>. The tags marked \<open>Keep\<close> are
  not protected either, and are kept for their age.
\<close>

definition eligible_tags :: "(tag_detail \<times> decision) list \<Rightarrow> tag list" where
  "eligible_tags ds = map (\<lambda>d. fst (fst d)) (filter (\<lambda>d. snd d = Delete) ds)"

definition kept_tags :: "(tag_detail \<times> decision) list \<Rightarrow> tag list" where
  "kept_tags ds = map (\<lambda>d. fst (fst d)) (filter (\<lambda>d. snd d = Keep) ds)"

definition deleted_digests :: "(tag_detail \<times> decision) list \<Rightarrow> digest list" where
  "deleted_digests ds = map (\<lambda>d. snd (snd (fst d))) (filter (\<lambda>d. snd d = Delete) ds)"

subsection \<open>Observations on a run\<close>

fun is_delete :: "event \<Rightarrow> bool" where
  "is_delete (DELETE_manifest repository digest) = True"
| "is_delete e = False"

fun is_log :: "event \<Rightarrow> bool" where
  "is_log (LOG l m) = True"
| "is_log e = False"

text \<open>The repository a registry request is about.\<close>

fun request_repo :: "event \<Rightarrow> repo option" where
  "request_repo (GET_tags repository) = Some repository"
| "request_repo (GET_manifest repository tag) = Some repository"
| "request_repo (GET_blob repository digest) = Some repository"
| "request_repo (DELETE_manifest repository digest) = Some repository"
| "request_repo e = None"

text \<open>A log line, or a request about the given repository.\<close>

definition about :: "repo \<Rightarrow> event \<Rightarrow> bool" where
  "about repository e = (is_log e \<or> request_repo e = Some repository)"

definition garbage_collections :: "event list \<Rightarrow> nat" where
  "garbage_collections es = length (filter (\<lambda>e. e = RUN_garbage_collect) es)"

subsection \<open>Reading a UTC offset\<close>

text \<open>
  The ISO 8601 reading of the UTC offset that ends a timestamp, in minutes: the extended
  form \<^verbatim>\<open>+HH:MM\<close> and the basic form \<^verbatim>\<open>+HHMM\<close>, so that \<^verbatim>\<open>+0503\<close> is five hours
  and three minutes. It is not part of the script: it says which offset a text denotes
  before and after line 84 rewrote it.
\<close>

definition digit_value :: "char \<Rightarrow> int" where
  "digit_value c = int (length (takeWhile (\<lambda>d. d \<noteq> c) ''0123456789''))"

definition offset_of_fields :: "char \<Rightarrow> char \<Rightarrow> char \<Rightarrow> char \<Rightarrow> char \<Rightarrow> int option" where
  "offset_of_fields sign h1 h2 m1 m2 =
     (if digit h1 \<and> digit h2 \<and> digit m1 \<and> digit m2 \<and> (sign = CHR ''+'' \<or> sign = CHR ''-'')
      then Some ((if sign = CHR ''-'' then - 1 else 1) *
                 ((10 * digit_value h1 + digit_value h2) * 60 + 10 * digit_value m1 + digit_value m2))
      else None)"

fun basic_offset :: "string \<Rightarrow> int option" where
  "basic_offset (m2 # m1 # h2 # h1 # sign # pre) = offset_of_fields sign h1 h2 m1 m2"
| "basic_offset r = None"

fun extended_offset :: "string \<Rightarrow> int option" where
  "extended_offset (m2 # m1 # c # h2 # h1 # sign # pre) =
     (if c = CHR '':'' then offset_of_fields sign h1 h2 m1 m2 else None)"
| "extended_offset r = None"

definition iso_offset_minutes :: "string \<Rightarrow> int option" where
  "iso_offset_minutes s =
     (case extended_offset (rev s) of Some m \<Rightarrow> Some m | None \<Rightarrow> basic_offset (rev s))"

subsection \<open>A sample registry\<close>

text \<open>
  A registry that answers every request of a kind alike: the catalog, the tag lists, the
  deletions and the garbage collection as given; every manifest and blob is served, every
  image was created on 2024-01-01T00:00:00Z, every directory exists and is removed, and
  the clock stands at 2024-03-01T00:00:00Z. The parser knows the one text line 84 makes
  of that creation date.
\<close>

definition sample_created :: int where
  "sample_created = 63839664000000000"

definition sample_now :: int where
  "sample_now = 63844848000000000"

definition sample_env ::
  "(string list option) reply \<Rightarrow> (string list option) reply \<Rightarrow> unit reply \<Rightarrow> process \<Rightarrow> unit env" where
  "sample_env catalog tags deletion gc =
     \<lparr> http_get_catalog = (\<lambda>w. (catalog, w)),
       http_get_tags = (\<lambda>repository w. (tags, w)),
       http_get_manifest = (\<lambda>repository tag w.
          (Response 200 (Decoded (Some (''sha256:'' @ tag), Some (''sha256:config-'' @ tag))), w)),
       http_get_blob = (\<lambda>repository digest w.
          (Response 200 (Decoded (Some ''2024-01-01T00:00:00Z'')), w)),
       http_delete_manifest = (\<lambda>repository digest w. (deletion, w)),
       run_registry_garbage_collect = (\<lambda>w. (gc, w)),
       os_path_exists = (\<lambda>path w. (True, w)),
       run_rm = (\<lambda>path w. (Exit 0, w)),
       datetime_now_utc = (\<lambda>w. (sample_now, w)),
       datetime_fromisoformat = (\<lambda>text.
          if text = ''2024-01-01T00:00:00''
          then Some \<lparr> wall = sample_created, tzinfo = None \<rparr> else None) \<rparr>"

text \<open>Two resolved tags: one created on 2024-01-01, one at the sample clock's instant.\<close>

definition sample_tag_details :: "tag_detail list" where
  "sample_tag_details =
     [(''v1'', sample_created, ''sha256:v1''), (''v2'', sample_now, ''sha256:v2'')]"

text \<open>
  The specification's example at the sample clock: A is 40 days old, B is 10 days old
  and C is 1 day old.
\<close>

definition example_tag_details :: "tag_detail list" where
  "example_tag_details =
     [(''A'', sample_now - 40 * microseconds_per_day, ''sha256:A''),
      (''B'', sample_now - 10 * microseconds_per_day, ''sha256:B''),
      (''C'', sample_now - 1 * microseconds_per_day, ''sha256:C'')]"

definition sample_config :: "string list \<Rightarrow> config" where
  "sample_config excluded =
     \<lparr> DEFAULT_DAYS_THRESHOLD = 30,
       DEFAULT_RECENT_IMAGES = 0,
       EXCLUDE_REPOS = excluded,
       REPOSITORY_PATH = ''/var/lib/registry/docker/registry/v2/repositories'',
       SPECIFIC_RECENT_IMAGES = Map.empty,
       SPECIFIC_DAYS_THRESHOLD = Map.empty \<rparr>"

section \<open>Outcomes, and the calls of the delete loop\<close>

lemma prepend_simp [simp]: "prepend es (r, w, es') = (r, w, es @ es')"
  by (simp add: prepend_def)

lemma events_simp [simp]: "events (r, w, es) = es"
  by (simp add: events_def)

lemma result_simp [simp]: "result (r, w, es) = r"
  by (simp add: result_def)

lemma events_prepend [simp]: "events (prepend es out) = es @ events out"
  by (cases out) simp

lemma result_prepend [simp]: "result (prepend es out) = result out"
  by (cases out) simp

lemma delete_image_cases:
  obtains w' where "delete_image E r t d w = (Inl RequestException, w', [DELETE_manifest r d])"
  | w' where "delete_image E r t d w = (Inr (), w', [DELETE_manifest r d, LOG INFO (Deleted_image r t d)])"
  | w' where "delete_image E r t d w = (Inr (), w', [DELETE_manifest r d])"
proof (cases "http_delete_manifest E r d w")
  case (Pair reply w')
  show ?thesis
  proof (cases reply)
    case No_response
    with Pair that(1) show ?thesis by (simp add: delete_image_def)
  next
    case (Response st b)
    with Pair that(2) that(3) show ?thesis by (cases "st = 202") (simp_all add: delete_image_def)
  qed
qed

lemma delete_loop_delete_events:
  "e \<in> set (events (delete_loop E r recent th xs w)) \<Longrightarrow> is_delete e \<Longrightarrow>
   \<exists>t c d. e = DELETE_manifest r d \<and> (t, c, d) \<in> set xs \<and> t \<notin> recent \<and> c < th"
proof (induction xs arbitrary: w)
  case Nil
  then show ?case by simp
next
  case (Cons x xs)
  obtain t c d where x: "x = (t, c, d)" by (cases x) auto
  show ?case
  proof (cases "t \<notin> recent \<and> c < th")
    case False
    then have "delete_loop E r recent th (x # xs) w = delete_loop E r recent th xs w"
      by (auto simp: x)
    with Cons show ?thesis by fastforce
  next
    case True
    show ?thesis
    proof (cases rule: delete_image_cases [of E r t d w])
      case (1 w')
      with True Cons.prems show ?thesis by (auto simp: x)
    next
      case (2 w')
      with True Cons.prems Cons.IH [of w'] show ?thesis
        by (auto simp: x split: prod.splits sum.splits) 
    next
      case (3 w')
      with True Cons.prems Cons.IH [of w'] show ?thesis
        by (auto simp: x split: prod.splits sum.splits)
    qed
  qed
qed

section \<open>The retention decision\<close>

lemma decide_alt:
  "decide tds rc th =
     map (\<lambda>x. (x, if fst x \<in> set (map fst (slice_to rc (sort_descending tds))) then Protected
                   else if fst (snd x) < th then Delete else Keep))
         (sort_descending tds)"
  by (simp add: decide_def Let_def case_prod_beta)

lemma set_sort_descending [simp]: "set (sort_descending tds) = set tds"
  by (simp add: sort_descending_def)

lemma decide_member:
  "(x, m) \<in> set (decide tds rc th) \<longleftrightarrow>
     x \<in> set tds \<and>
     m = (if fst x \<in> set (map fst (slice_to rc (sort_descending tds))) then Protected
          else if fst (snd x) < th then Delete else Keep)"
  unfolding decide_alt by (auto simp: image_iff)

lemma decide_not_delete:
  "threshold_date \<le> creation_date \<Longrightarrow>
   ((tag, creation_date, digest), Delete) \<notin> set (decide tag_details recent_count threshold_date)"
  by (simp add: decide_member)

lemma slice_to_zero: "slice_to 0 xs = []"
  by (simp add: slice_to_def)

lemma decide_keep_now:
  "(tag, now, digest) \<in> set tag_details \<Longrightarrow>
   ((tag, now, digest), Keep) \<in> set (decide tag_details 0 now)"
  by (simp add: decide_member slice_to_zero)

lemma minus_days_zero: "minus_days now 0 = Inr th \<Longrightarrow> th = now"
  by (auto simp: minus_days_def Let_def split: if_splits)

lemma process_tag_details_deletes:
  assumes now: "datetime_now_utc E w = (now, w1)"
    and e: "e \<in> set (events (process_tag_details E repository recent_count days_threshold tag_details w))"
    and d: "is_delete e"
  shows "\<exists>t c d. e = DELETE_manifest repository d \<and>
           ((t, c, d), Delete) \<in> set (decide tag_details recent_count (now - days_threshold * microseconds_per_day)) \<and>
           c < now - days_threshold * microseconds_per_day"
proof (cases "minus_days now days_threshold")
  case (Inl x)
  with now e show ?thesis by (simp add: process_tag_details_def Let_def)
next
  case (Inr th)
  then have th: "th = now - days_threshold * microseconds_per_day"
    by (auto simp: minus_days_def Let_def split: if_splits)
  let ?recent = "set (map fst (slice_to recent_count (sort_descending tag_details)))"
  let ?loop = "delete_loop E repository ?recent th (sort_descending tag_details) w1"
  from d have nolog: "e \<noteq> LOG INFO (Skipping_within_retention_policy repository)" by auto
  have "e \<in> set (events ?loop)"
    using now e Inr nolog
    by (cases ?loop) (auto simp: process_tag_details_def Let_def split: sum.splits if_splits)
  from delete_loop_delete_events [OF this d]
  obtain t c dg where "e = DELETE_manifest repository dg" "(t, c, dg) \<in> set (sort_descending tag_details)"
    "t \<notin> ?recent" "c < th" by blast
  then show ?thesis
    unfolding th by (intro exI [of _ t] exI [of _ c] exI [of _ dg]) (simp add: decide_member)
qed

lemma decide_tags: "map (\<lambda>d. fst (fst d)) (decide tds rc th) = map fst (sort_descending tds)"
  by (simp add: decide_alt comp_def)

lemma length_decide: "length (decide tds rc th) = length tds"
  by (simp add: decide_alt sort_descending_def)

lemma distinct_tags_sorted:
  "distinct (map fst tds) \<Longrightarrow> distinct (map fst (sort_descending tds))"
  by (simp add: distinct_map sort_descending_def)

text \<open>
  The decision is the one the script acts on: when lines 153 to 167 end without an
  exception, the \<open>DELETE\<close> requests they sent are those of the tag details marked
  \<open>Delete\<close>, in the order of the decision.
\<close>

lemma delete_loop_requests:
  "result (delete_loop E r recent th xs w) = Inr n \<Longrightarrow>
   filter is_delete (events (delete_loop E r recent th xs w))
     = map (\<lambda>x. DELETE_manifest r (snd (snd x)))
         (filter (\<lambda>x. fst x \<notin> recent \<and> fst (snd x) < th) xs) \<and>
   n = length (filter (\<lambda>x. fst x \<notin> recent \<and> fst (snd x) < th) xs)"
proof (induction xs arbitrary: w n)
  case Nil
  then show ?case by simp
next
  case (Cons x xs)
  obtain t c d where x: "x = (t, c, d)" by (cases x) auto
  show ?case
  proof (cases "t \<notin> recent \<and> c < th")
    case False
    then have "delete_loop E r recent th (x # xs) w = delete_loop E r recent th xs w"
      by (auto simp: x)
    with Cons False show ?thesis by (auto simp: x)
  next
    case True
    show ?thesis
    proof (cases rule: delete_image_cases [of E r t d w])
      case (1 w')
      with True Cons.prems show ?thesis by (simp add: x)
    next
      case (2 w')
      obtain r3 w3 es3 where l: "delete_loop E r recent th xs w' = (r3, w3, es3)"
        by (cases "delete_loop E r recent th xs w'") auto
      with True 2 Cons.prems obtain m where m: "r3 = Inr m" "n = Suc m"
        by (cases r3) (auto simp: x)
      with l Cons.IH [of w' m] True 2 show ?thesis by (simp add: x)
    next
      case (3 w')
      obtain r3 w3 es3 where l: "delete_loop E r recent th xs w' = (r3, w3, es3)"
        by (cases "delete_loop E r recent th xs w'") auto
      with True 3 Cons.prems obtain m where m: "r3 = Inr m" "n = Suc m"
        by (cases r3) (auto simp: x)
      with l Cons.IH [of w' m] True 3 show ?thesis by (simp add: x)
    qed
  qed
qed

lemma deleted_digests_marks:
  "map (\<lambda>d. snd (snd (fst d)))
     (filter (\<lambda>d. snd d = Delete)
        (map (\<lambda>x. (x, if fst x \<in> S then Protected
                       else if fst (snd x) < th then Delete else Keep)) xs))
   = map (\<lambda>x. snd (snd x)) (filter (\<lambda>x. fst x \<notin> S \<and> fst (snd x) < th) xs)"
  by (induction xs) auto

lemma deleted_digests_decide:
  "deleted_digests (decide tds rc th)
     = map (\<lambda>x. snd (snd x))
         (filter (\<lambda>x. fst x \<notin> set (map fst (slice_to rc (sort_descending tds))) \<and> fst (snd x) < th)
            (sort_descending tds))"
  by (simp only: deleted_digests_def decide_alt deleted_digests_marks)

lemma process_tag_details_refines_decide:
  assumes now: "datetime_now_utc E w = (now, w1)"
    and ok: "result (process_tag_details E repository recent_count days_threshold tag_details w) = Inr u"
  shows "filter is_delete (events (process_tag_details E repository recent_count days_threshold tag_details w))
     = map (DELETE_manifest repository)
         (deleted_digests (decide tag_details recent_count (now - days_threshold * microseconds_per_day)))"
proof (cases "minus_days now days_threshold")
  case (Inl x)
  with now ok show ?thesis by (simp add: process_tag_details_def Let_def)
next
  case (Inr th)
  then have th: "th = now - days_threshold * microseconds_per_day"
    by (auto simp: minus_days_def Let_def split: if_splits)
  let ?recent = "set (map fst (slice_to recent_count (sort_descending tag_details)))"
  let ?loop = "delete_loop E repository ?recent th (sort_descending tag_details) w1"
  obtain r2 w2 es2 where l: "?loop = (r2, w2, es2)" by (cases ?loop) auto
  with now Inr ok obtain n where n: "r2 = Inr n"
    by (cases r2) (auto simp: process_tag_details_def Let_def)
  with l have "result ?loop = Inr n" by simp
  from delete_loop_requests [OF this] l
  have "filter is_delete es2 = map (\<lambda>x. DELETE_manifest repository (snd (snd x)))
         (filter (\<lambda>x. fst x \<notin> ?recent \<and> fst (snd x) < th) (sort_descending tag_details))"
    by simp
  moreover have "filter is_delete (events (process_tag_details E repository recent_count days_threshold tag_details w))
      = filter is_delete es2"
    using now Inr l n by (simp add: process_tag_details_def Let_def)
  ultimately show ?thesis
    unfolding th by (simp add: deleted_digests_decide comp_def)
qed

text \<open>
  Claim C2. A tag detail whose creation time is at or after the threshold is never marked
  for deletion, protected or not: the decision gives it \<open>Protected\<close> or \<open>Keep\<close>. With
  a recent count of 0 and an age threshold of 0 days the threshold is the clock's instant,
  and a detail created at that instant is kept: line 162 deletes only on
  \<open>creation_date < threshold_date\<close>. In every run of lines 153 to 167, whatever the
  registry answers, each \<open>DELETE\<close> request is for a detail that the decision marks
  \<open>Delete\<close> and that is strictly older than the clock minus the age threshold.
\<close>

theorem recent_enough_never_deleted:
  "((tag, creation_date, digest) \<in> set tag_details \<and> threshold_date \<le> creation_date \<longrightarrow>
      ((tag, creation_date, digest), Delete) \<notin> set (decide tag_details recent_count threshold_date) \<and>
      (((tag, creation_date, digest), Protected) \<in> set (decide tag_details recent_count threshold_date) \<or>
       ((tag, creation_date, digest), Keep) \<in> set (decide tag_details recent_count threshold_date)))
   \<and> ((tag, now, digest) \<in> set tag_details \<and> minus_days now 0 = Inr threshold \<longrightarrow>
        threshold = now \<and> ((tag, now, digest), Keep) \<in> set (decide tag_details 0 threshold))
   \<and> (datetime_now_utc E w = (clock, w1) \<and>
        e \<in> set (events (process_tag_details E repository recent_count days_threshold tag_details w)) \<and>
        is_delete e \<longrightarrow>
        (\<exists>t c d. e = DELETE_manifest repository d \<and>
           ((t, c, d), Delete) \<in> set (decide tag_details recent_count (clock - days_threshold * microseconds_per_day)) \<and>
           c < clock - days_threshold * microseconds_per_day))"
proof (intro conjI impI)
  assume a: "(tag, creation_date, digest) \<in> set tag_details \<and> threshold_date \<le> creation_date"
  then show "((tag, creation_date, digest), Delete) \<notin> set (decide tag_details recent_count threshold_date)"
    by (simp add: decide_not_delete)
  from a show "((tag, creation_date, digest), Protected) \<in> set (decide tag_details recent_count threshold_date) \<or>
       ((tag, creation_date, digest), Keep) \<in> set (decide tag_details recent_count threshold_date)"
    by (simp add: decide_member)
next
  assume a: "(tag, now, digest) \<in> set tag_details \<and> minus_days now 0 = Inr threshold"
  then show t: "threshold = now" by (simp add: minus_days_zero)
  from a show "((tag, now, digest), Keep) \<in> set (decide tag_details 0 threshold)"
    unfolding t by (simp add: decide_keep_now)
next
  assume "datetime_now_utc E w = (clock, w1) \<and>
        e \<in> set (events (process_tag_details E repository recent_count days_threshold tag_details w)) \<and>
        is_delete e"
  then show "\<exists>t c d. e = DELETE_manifest repository d \<and>
           ((t, c, d), Delete) \<in> set (decide tag_details recent_count (clock - days_threshold * microseconds_per_day)) \<and>
           c < clock - days_threshold * microseconds_per_day"
    by (elim conjE) (rule process_tag_details_deletes)
qed

theorem recent_enough_never_deleted_witness:
  "((''v2'', sample_now, ''sha256:v2'') \<in> set sample_tag_details \<and> sample_now \<le> sample_now) \<and>
   (((''v2'', sample_now, ''sha256:v2''), Delete) \<notin> set (decide sample_tag_details 0 sample_now) \<and>
    (((''v2'', sample_now, ''sha256:v2''), Protected) \<in> set (decide sample_tag_details 0 sample_now) \<or>
     ((''v2'', sample_now, ''sha256:v2''), Keep) \<in> set (decide sample_tag_details 0 sample_now))) \<and>
   ((''v2'', sample_now, ''sha256:v2'') \<in> set sample_tag_details \<and>
    minus_days sample_now 0 = Inr sample_now) \<and>
   (sample_now = sample_now \<and>
    ((''v2'', sample_now, ''sha256:v2''), Keep) \<in> set (decide sample_tag_details 0 sample_now)) \<and>
   (datetime_now_utc (sample_env No_response No_response (Response 202 Undecodable) (Exit 0)) ()
      = (sample_now, ()) \<and>
    DELETE_manifest ''app'' ''sha256:v1''
      \<in> set (events (process_tag_details
                       (sample_env No_response No_response (Response 202 Undecodable) (Exit 0))
                       ''app'' 0 0 sample_tag_details ())) \<and>
    is_delete (DELETE_manifest ''app'' ''sha256:v1'')) \<and>
   (\<exists>t c d. DELETE_manifest ''app'' ''sha256:v1'' = DELETE_manifest ''app'' d \<and>
      ((t, c, d), Delete)
        \<in> set (decide sample_tag_details 0 (sample_now - 0 * microseconds_per_day)) \<and>
      c < sample_now - 0 * microseconds_per_day)"
proof -
  let ?E = "sample_env No_response No_response (Response 202 Undecodable) (Exit 0)"
  have h1: "(''v2'', sample_now, ''sha256:v2'') \<in> set sample_tag_details \<and> sample_now \<le> sample_now"
    by (simp add: sample_tag_details_def)
  have h2: "(''v2'', sample_now, ''sha256:v2'') \<in> set sample_tag_details \<and>
      minus_days sample_now 0 = Inr sample_now"
    by (simp add: sample_tag_details_def minus_days_def datetime_max_def microseconds_per_day_def
        sample_now_def)
  have h3: "datetime_now_utc ?E () = (sample_now, ()) \<and>
     DELETE_manifest ''app'' ''sha256:v1''
       \<in> set (events (process_tag_details ?E ''app'' 0 0 sample_tag_details ())) \<and>
     is_delete (DELETE_manifest ''app'' ''sha256:v1'')"
    by code_simp
  note t = recent_enough_never_deleted [of "''v2''" sample_now "''sha256:v2''" sample_tag_details
      sample_now 0 sample_now sample_now ?E "()" sample_now "()"
      "DELETE_manifest ''app'' ''sha256:v1''" "''app''" 0]
  note c1 = t [THEN conjunct1, THEN mp, OF h1]
  note c2 = t [THEN conjunct2, THEN conjunct1, THEN mp, OF h2]
  note c3 = t [THEN conjunct2, THEN conjunct2, THEN mp, OF h3]
  show ?thesis
    by (rule conjI [OF h1 conjI [OF c1 conjI [OF h2 conjI [OF c2 conjI [OF h3 c3]]]]])
qed


subsection \<open>The three sets of the decision\<close>

lemma filter_take_distinct:
  assumes "distinct (map f xs)"
  shows "filter (\<lambda>x. f x \<in> f ` set (take k xs)) xs = take k xs"
proof -
  have d: "distinct (map f (take k xs) @ map f (drop k xs))"
    using assms by (metis append_take_drop_id map_append)
  have a: "filter (\<lambda>x. f x \<in> f ` set (take k xs)) (take k xs) = take k xs"
    by (rule filter_True) simp
  have b: "filter (\<lambda>x. f x \<in> f ` set (take k xs)) (drop k xs) = []"
    using d by (auto simp: filter_empty_conv)
  have "filter (\<lambda>x. f x \<in> f ` set (take k xs)) (take k xs @ drop k xs) = take k xs"
    unfolding filter_append a b by simp
  then show ?thesis by simp
qed

lemma slice_to_take: "\<exists>k. slice_to n xs = take k xs"
  by (auto simp: slice_to_def)

lemma protected_tags_decide:
  "protected_tags (decide tds rc th)
     = map fst (filter (\<lambda>x. fst x \<in> set (map fst (slice_to rc (sort_descending tds))))
                  (sort_descending tds))"
proof -
  have "\<And>S xs. map (\<lambda>d. fst (fst d))
     (filter (\<lambda>d. snd d = Protected)
        (map (\<lambda>x. (x, if fst x \<in> S then Protected
                       else if fst (snd x) < th then Delete else Keep)) xs))
     = map fst (filter (\<lambda>x. fst x \<in> S) xs)"
    subgoal for S xs by (induction xs) auto
    done
  then show ?thesis by (simp only: protected_tags_def decide_alt)
qed

lemma eligible_tags_decide:
  "eligible_tags (decide tds rc th)
     = map fst (filter (\<lambda>x. fst x \<notin> set (map fst (slice_to rc (sort_descending tds))) \<and> fst (snd x) < th)
                  (sort_descending tds))"
proof -
  have "\<And>S xs. map (\<lambda>d. fst (fst d))
     (filter (\<lambda>d. snd d = Delete)
        (map (\<lambda>x. (x, if fst x \<in> S then Protected
                       else if fst (snd x) < th then Delete else Keep)) xs))
     = map fst (filter (\<lambda>x. fst x \<notin> S \<and> fst (snd x) < th) xs)"
    subgoal for S xs by (induction xs) auto
    done
  then show ?thesis by (simp only: eligible_tags_def decide_alt)
qed

lemma kept_tags_decide:
  "kept_tags (decide tds rc th)
     = map fst (filter (\<lambda>x. fst x \<notin> set (map fst (slice_to rc (sort_descending tds))) \<and> th \<le> fst (snd x))
                  (sort_descending tds))"
proof -
  have "\<And>S xs. map (\<lambda>d. fst (fst d))
     (filter (\<lambda>d. snd d = Keep)
        (map (\<lambda>x. (x, if fst x \<in> S then Protected
                       else if fst (snd x) < th then Delete else Keep)) xs))
     = map fst (filter (\<lambda>x. fst x \<notin> S \<and> th \<le> fst (snd x)) xs)"
    subgoal for S xs by (induction xs) auto
    done
  then show ?thesis by (simp only: kept_tags_def decide_alt)
qed

lemma protected_tags_first:
  assumes "distinct (map fst tds)"
  shows "protected_tags (decide tds rc th) = map fst (slice_to rc (sort_descending tds))"
proof -
  obtain k where k: "slice_to rc (sort_descending tds) = take k (sort_descending tds)"
    using slice_to_take by blast
  have "distinct (map fst (sort_descending tds))"
    using assms by (rule distinct_tags_sorted)
  from filter_take_distinct [OF this, of k] show ?thesis
    by (simp add: protected_tags_decide k)
qed

lemma set_slice_to_subset: "set (slice_to n xs) \<subseteq> set xs"
  by (auto simp: slice_to_def dest: in_set_takeD)

lemma length_three_filters:
  "length (filter (\<lambda>x. f x \<in> S) xs) + length (filter (\<lambda>x. f x \<notin> S \<and> g x < th) xs)
     + length (filter (\<lambda>x. f x \<notin> S \<and> th \<le> g x) xs) = length xs"
  for th :: int
  by (induction xs) auto

lemma protected_set:
  "set (protected_tags (decide tds rc th)) = set (map fst (slice_to rc (sort_descending tds)))"
  using set_slice_to_subset [of rc "sort_descending tds"]
  by (auto simp: protected_tags_decide image_iff) 

lemma eligible_set:
  "set (eligible_tags (decide tds rc th))
     = {t. \<exists>c d. (t, c, d) \<in> set tds \<and>
              t \<notin> set (map fst (slice_to rc (sort_descending tds))) \<and> c < th}"
  by (auto simp: eligible_tags_decide image_iff) blast+

lemma kept_set:
  "set (kept_tags (decide tds rc th))
     = {t. \<exists>c d. (t, c, d) \<in> set tds \<and>
              t \<notin> set (map fst (slice_to rc (sort_descending tds))) \<and> th \<le> c}"
  by (auto simp: kept_tags_decide image_iff) blast+

lemma three_sets_cover:
  "set (protected_tags (decide tds rc th)) \<union> set (eligible_tags (decide tds rc th))
     \<union> set (kept_tags (decide tds rc th)) = set (map fst tds)"
proof (intro set_eqI iffI)
  fix t
  assume "t \<in> set (protected_tags (decide tds rc th)) \<union> set (eligible_tags (decide tds rc th))
     \<union> set (kept_tags (decide tds rc th))"
  then show "t \<in> set (map fst tds)"
    using set_slice_to_subset [of rc "sort_descending tds"]
    by (auto simp: protected_set eligible_set kept_set image_iff) force+
next
  fix t
  assume "t \<in> set (map fst tds)"
  then obtain c d where x: "(t, c, d) \<in> set tds" by auto
  show "t \<in> set (protected_tags (decide tds rc th)) \<union> set (eligible_tags (decide tds rc th))
     \<union> set (kept_tags (decide tds rc th))"
  proof (cases "t \<in> set (map fst (slice_to rc (sort_descending tds)))")
    case True
    then show ?thesis by (simp add: protected_set)
  next
    case False
    with x show ?thesis by (cases "c < th") (auto simp: eligible_set kept_set)
  qed
qed

lemma three_lists_length:
  "length (protected_tags (decide tds rc th)) + length (eligible_tags (decide tds rc th))
     + length (kept_tags (decide tds rc th)) = length tds"
  using length_three_filters [of fst _ "sort_descending tds" "\<lambda>x. fst (snd x)" th]
  by (simp add: protected_tags_decide eligible_tags_decide kept_tags_decide sort_descending_def)

lemma protected_disjoint:
  "set (protected_tags (decide tds rc th)) \<inter> set (eligible_tags (decide tds rc th)) = {}"
  "set (protected_tags (decide tds rc th)) \<inter> set (kept_tags (decide tds rc th)) = {}"
  by (auto simp: protected_set eligible_set kept_set)

lemma three_lists_distinct:
  assumes "distinct (map fst tds)"
  shows "distinct (protected_tags (decide tds rc th) @ eligible_tags (decide tds rc th)
                   @ kept_tags (decide tds rc th))"
proof -
  have d: "distinct (map fst (sort_descending tds))"
    using assms by (rule distinct_tags_sorted)
  then have each: "distinct (protected_tags (decide tds rc th))"
    "distinct (eligible_tags (decide tds rc th))" "distinct (kept_tags (decide tds rc th))"
    by (simp_all add: protected_tags_decide eligible_tags_decide kept_tags_decide distinct_map_filter)
  from assms have inj: "inj_on fst (set tds)"
    by (simp add: distinct_map)
  have ek: "set (eligible_tags (decide tds rc th)) \<inter> set (kept_tags (decide tds rc th)) = {}"
  proof (rule ccontr)
    assume "\<not> ?thesis"
    then obtain t where "t \<in> set (eligible_tags (decide tds rc th))"
      "t \<in> set (kept_tags (decide tds rc th))" by blast
    then obtain c d c' d' where x: "(t, c, d) \<in> set tds" "c < th" and y: "(t, c', d') \<in> set tds" "th \<le> c'"
      by (auto simp: eligible_set kept_set)
    from inj_onD [OF inj, of "(t, c, d)" "(t, c', d')"] x(1) y(1) have "(t, c, d) = (t, c', d')"
      by simp
    with x(2) y(2) show False by simp
  qed
  from each ek protected_disjoint [of tds rc th] show ?thesis
    by auto
qed

text \<open>
  Claim C3 as stated fails. In the specification's own example, tag B is not protected
  and is younger than the threshold, so it is neither in the protected set nor eligible
  for deletion: the two sets are disjoint, but their union is not the input tag set.
\<close>

theorem eligible_partition_counterexample:
  "map fst example_tag_details = [''A'', ''B'', ''C''] \<and>
   protected_tags (decide example_tag_details 1 (sample_now - 20 * microseconds_per_day)) = [''C''] \<and>
   eligible_tags (decide example_tag_details 1 (sample_now - 20 * microseconds_per_day)) = [''A''] \<and>
   ''B'' \<notin> set (protected_tags (decide example_tag_details 1 (sample_now - 20 * microseconds_per_day)))
           \<union> set (eligible_tags (decide example_tag_details 1 (sample_now - 20 * microseconds_per_day))) \<and>
   set (protected_tags (decide example_tag_details 1 (sample_now - 20 * microseconds_per_day)))
     \<union> set (eligible_tags (decide example_tag_details 1 (sample_now - 20 * microseconds_per_day)))
     \<noteq> set (map fst example_tag_details)"
proof -
  have m: "map fst example_tag_details = [''A'', ''B'', ''C'']"
    by code_simp
  have p: "protected_tags (decide example_tag_details 1 (sample_now - 20 * microseconds_per_day)) = [''C'']"
    by code_simp
  have e: "eligible_tags (decide example_tag_details 1 (sample_now - 20 * microseconds_per_day)) = [''A'']"
    by code_simp
  have nb: "''B'' \<notin> set [''C''] \<union> set [''A'']"
    by simp
  have ne: "set [''C''] \<union> set [''A''] \<noteq> set [''A'', ''B'', ''C'']"
  proof
    assume eq: "set [''C''] \<union> set [''A''] = set [''A'', ''B'', ''C'']"
    have "''B'' \<in> set [''A'', ''B'', ''C'']" by simp
    with eq have "''B'' \<in> set [''C''] \<union> set [''A'']" by (simp only:)
    with nb show False by (simp only: not_True_eq_False)
  qed
  show ?thesis
    unfolding m p e by (intro conjI refl nb ne)
qed

text \<open>
  Claim C3, amended. The decision partitions the input tags into three sets: the
  protected tags, which are the tags of the first \<open>recent_count\<close> tag details of the
  sorted list; the tags eligible for deletion, which are not protected and older than the
  threshold; and the tags kept for their age, which are not protected and not older than
  the threshold. The protected set is disjoint from the other two, the union of the
  three is the input tag set, and there are as many decisions as tag details. When the
  input tags are pairwise distinct, every tag stands exactly once in the three lists, and
  the protected tags are the first \<open>recent_count\<close> tags of the sorted list, in that
  order.
\<close>

theorem retention_three_way_partition:
  "let D = decide tag_details recent_count threshold_date;
       recent = map fst (slice_to recent_count (sort_descending tag_details))
   in set (protected_tags D) \<inter> set (eligible_tags D) = {}
    \<and> set (protected_tags D) \<inter> set (kept_tags D) = {}
    \<and> set (protected_tags D) \<union> set (eligible_tags D) \<union> set (kept_tags D)
        = set (map fst tag_details)
    \<and> length (protected_tags D) + length (eligible_tags D) + length (kept_tags D)
        = length tag_details
    \<and> set (protected_tags D) = set recent
    \<and> set (eligible_tags D)
        = {t. \<exists>c d. (t, c, d) \<in> set tag_details \<and> t \<notin> set recent \<and> c < threshold_date}
    \<and> set (kept_tags D)
        = {t. \<exists>c d. (t, c, d) \<in> set tag_details \<and> t \<notin> set recent \<and> threshold_date \<le> c}
    \<and> (distinct (map fst tag_details) \<longrightarrow>
         distinct (protected_tags D @ eligible_tags D @ kept_tags D) \<and> protected_tags D = recent)"
  unfolding Let_def
proof (intro conjI impI)
  show "set (protected_tags (decide tag_details recent_count threshold_date)) \<inter>
      set (eligible_tags (decide tag_details recent_count threshold_date)) = {}"
    by (rule protected_disjoint)
  show "set (protected_tags (decide tag_details recent_count threshold_date)) \<inter>
      set (kept_tags (decide tag_details recent_count threshold_date)) = {}"
    by (rule protected_disjoint)
  show "set (protected_tags (decide tag_details recent_count threshold_date)) \<union>
      set (eligible_tags (decide tag_details recent_count threshold_date)) \<union>
      set (kept_tags (decide tag_details recent_count threshold_date)) = set (map fst tag_details)"
    by (rule three_sets_cover)
  show "length (protected_tags (decide tag_details recent_count threshold_date)) +
      length (eligible_tags (decide tag_details recent_count threshold_date)) +
      length (kept_tags (decide tag_details recent_count threshold_date)) = length tag_details"
    by (rule three_lists_length)
  show "set (protected_tags (decide tag_details recent_count threshold_date)) =
      set (map fst (slice_to recent_count (sort_descending tag_details)))"
    by (rule protected_set)
  show "set (eligible_tags (decide tag_details recent_count threshold_date)) =
      {t. \<exists>c d. (t, c, d) \<in> set tag_details \<and>
                t \<notin> set (map fst (slice_to recent_count (sort_descending tag_details))) \<and>
                c < threshold_date}"
    by (rule eligible_set)
  show "set (kept_tags (decide tag_details recent_count threshold_date)) =
      {t. \<exists>c d. (t, c, d) \<in> set tag_details \<and>
                t \<notin> set (map fst (slice_to recent_count (sort_descending tag_details))) \<and>
                threshold_date \<le> c}"
    by (rule kept_set)
next
  assume d: "distinct (map fst tag_details)"
  then show "distinct (protected_tags (decide tag_details recent_count threshold_date) @
        eligible_tags (decide tag_details recent_count threshold_date) @
        kept_tags (decide tag_details recent_count threshold_date))"
    by (rule three_lists_distinct)
  from d show "protected_tags (decide tag_details recent_count threshold_date) =
      map fst (slice_to recent_count (sort_descending tag_details))"
    by (rule protected_tags_first)
qed

theorem retention_three_way_partition_witness:
  "distinct (map fst example_tag_details) \<and>
   (distinct (protected_tags (decide example_tag_details 1 (sample_now - 20 * microseconds_per_day)) @
              eligible_tags (decide example_tag_details 1 (sample_now - 20 * microseconds_per_day)) @
              kept_tags (decide example_tag_details 1 (sample_now - 20 * microseconds_per_day))) \<and>
    protected_tags (decide example_tag_details 1 (sample_now - 20 * microseconds_per_day))
      = map fst (slice_to 1 (sort_descending example_tag_details))) \<and>
   protected_tags (decide example_tag_details 1 (sample_now - 20 * microseconds_per_day)) = [''C''] \<and>
   eligible_tags (decide example_tag_details 1 (sample_now - 20 * microseconds_per_day)) = [''A''] \<and>
   kept_tags (decide example_tag_details 1 (sample_now - 20 * microseconds_per_day)) = [''B'']"
proof -
  have h: "distinct (map fst example_tag_details)"
    by code_simp
  note c = retention_three_way_partition [of example_tag_details 1
      "sample_now - 20 * microseconds_per_day", unfolded Let_def,
      THEN conjunct2, THEN conjunct2, THEN conjunct2, THEN conjunct2, THEN conjunct2,
      THEN conjunct2, THEN conjunct2, THEN mp, OF h]
  have p: "protected_tags (decide example_tag_details 1 (sample_now - 20 * microseconds_per_day)) = [''C'']"
    by code_simp
  have e: "eligible_tags (decide example_tag_details 1 (sample_now - 20 * microseconds_per_day)) = [''A'']"
    by code_simp
  have k: "kept_tags (decide example_tag_details 1 (sample_now - 20 * microseconds_per_day)) = [''B'']"
    by code_simp
  show ?thesis
    by (rule conjI [OF h conjI [OF c conjI [OF p conjI [OF e k]]]])
qed

subsection \<open>The worked example\<close>

lemma example_decide:
  "decide [(''A'', T - 40 * microseconds_per_day, dA), (''B'', T - 10 * microseconds_per_day, dB),
           (''C'', T - 1 * microseconds_per_day, dC)] 1 (T - 20 * microseconds_per_day)
   = [((''C'', T - 1 * microseconds_per_day, dC), Protected),
      ((''B'', T - 10 * microseconds_per_day, dB), Keep),
      ((''A'', T - 40 * microseconds_per_day, dA), Delete)]"
  by (simp add: decide_def sort_descending_def slice_to_def microseconds_per_day_def)

lemma example_minus_days: "20 * microseconds_per_day \<le> T \<Longrightarrow> T \<le> datetime_max \<Longrightarrow> minus_days T 20 = Inr (T - 20 * microseconds_per_day)"
  by (simp add: minus_days_def Let_def microseconds_per_day_def)

lemma example_run:
  assumes "datetime_now_utc E w = (T, w1)" "20 * microseconds_per_day \<le> T" "T \<le> datetime_max"
    "http_delete_manifest E repository dA w1 = (Response status b, w2)"
  shows "process_tag_details E repository 1 20
           [(''A'', T - 40 * microseconds_per_day, dA), (''B'', T - 10 * microseconds_per_day, dB),
            (''C'', T - 1 * microseconds_per_day, dC)] w
         = (Inr (), w2, DELETE_manifest repository dA #
              (if status = 202 then [LOG INFO (Deleted_image repository ''A'' dA)] else []))"
proof -
  have s: "sort_descending [(''A'', T - 40 * microseconds_per_day, dA), (''B'', T - 10 * microseconds_per_day, dB),
            (''C'', T - 1 * microseconds_per_day, dC)] =
        [(''C'', T - 1 * microseconds_per_day, dC), (''B'', T - 10 * microseconds_per_day, dB), (''A'', T - 40 * microseconds_per_day, dA)]"
    by (simp add: sort_descending_def microseconds_per_day_def)
  have lt: "T - 40 * microseconds_per_day < T - 20 * microseconds_per_day"
     "\<not> T - 10 * microseconds_per_day < T - 20 * microseconds_per_day"
    by (simp_all add: microseconds_per_day_def)
  show ?thesis
    unfolding process_tag_details_def Let_def s
    using assms lt by (simp add: slice_to_def example_minus_days delete_image_def)
qed

text \<open>
  Claim C4. For the tag details A (40 days before \<open>T\<close>), B (10 days before) and C (1 day
  before), a recent count of 1, an age threshold of 20 days and the clock at \<open>T\<close>: C is
  the one protected tag, B is kept for its age, A is the one deletion. Run on any
  registry whose clock reads \<open>T\<close> (20 days or more after the year 1 began), lines 153 to
  167 send one request, the \<open>DELETE\<close> of A's digest.
\<close>

theorem retention_example:
  "decide [(''A'', T - 40 * microseconds_per_day, dA), (''B'', T - 10 * microseconds_per_day, dB),
           (''C'', T - 1 * microseconds_per_day, dC)] 1 (T - 20 * microseconds_per_day)
     = [((''C'', T - 1 * microseconds_per_day, dC), Protected),
        ((''B'', T - 10 * microseconds_per_day, dB), Keep),
        ((''A'', T - 40 * microseconds_per_day, dA), Delete)]
   \<and> (20 * microseconds_per_day \<le> T \<and> T \<le> datetime_max \<and>
      datetime_now_utc E w = (T, w1) \<and>
      http_delete_manifest E repository dA w1 = (Response status b, w2) \<longrightarrow>
        minus_days T 20 = Inr (T - 20 * microseconds_per_day) \<and>
        process_tag_details E repository 1 20
          [(''A'', T - 40 * microseconds_per_day, dA), (''B'', T - 10 * microseconds_per_day, dB),
           (''C'', T - 1 * microseconds_per_day, dC)] w
        = (Inr (), w2,
           DELETE_manifest repository dA #
             (if status = 202 then [LOG INFO (Deleted_image repository ''A'' dA)] else [])))"
proof (intro conjI impI)
  show "decide [(''A'', T - 40 * microseconds_per_day, dA), (''B'', T - 10 * microseconds_per_day, dB),
           (''C'', T - 1 * microseconds_per_day, dC)] 1 (T - 20 * microseconds_per_day)
     = [((''C'', T - 1 * microseconds_per_day, dC), Protected),
        ((''B'', T - 10 * microseconds_per_day, dB), Keep),
        ((''A'', T - 40 * microseconds_per_day, dA), Delete)]"
    by (rule example_decide)
next
  assume a: "20 * microseconds_per_day \<le> T \<and> T \<le> datetime_max \<and>
      datetime_now_utc E w = (T, w1) \<and>
      http_delete_manifest E repository dA w1 = (Response status b, w2)"
  then show "minus_days T 20 = Inr (T - 20 * microseconds_per_day)"
    by (elim conjE) (rule example_minus_days)
  from a show "process_tag_details E repository 1 20
          [(''A'', T - 40 * microseconds_per_day, dA), (''B'', T - 10 * microseconds_per_day, dB),
           (''C'', T - 1 * microseconds_per_day, dC)] w
        = (Inr (), w2,
           DELETE_manifest repository dA #
             (if status = 202 then [LOG INFO (Deleted_image repository ''A'' dA)] else []))"
    by (elim conjE) (rule example_run)
qed

theorem retention_example_witness:
  "(20 * microseconds_per_day \<le> sample_now \<and> sample_now \<le> datetime_max \<and>
    datetime_now_utc (sample_env No_response No_response (Response 202 Undecodable) (Exit 0)) ()
      = (sample_now, ()) \<and>
    http_delete_manifest (sample_env No_response No_response (Response 202 Undecodable) (Exit 0))
      ''app'' ''sha256:A'' () = (Response 202 Undecodable, ())) \<and>
   minus_days sample_now 20 = Inr (sample_now - 20 * microseconds_per_day) \<and>
   process_tag_details (sample_env No_response No_response (Response 202 Undecodable) (Exit 0))
     ''app'' 1 20
     [(''A'', sample_now - 40 * microseconds_per_day, ''sha256:A''),
      (''B'', sample_now - 10 * microseconds_per_day, ''sha256:B''),
      (''C'', sample_now - 1 * microseconds_per_day, ''sha256:C'')] ()
   = (Inr (), (),
      DELETE_manifest ''app'' ''sha256:A'' #
        (if (202 :: int) = 202 then [LOG INFO (Deleted_image ''app'' ''A'' ''sha256:A'')] else []))"
proof -
  let ?E = "sample_env No_response No_response (Response 202 Undecodable) (Exit 0)"
  have h: "20 * microseconds_per_day \<le> sample_now \<and> sample_now \<le> datetime_max \<and>
    datetime_now_utc ?E () = (sample_now, ()) \<and>
    http_delete_manifest ?E ''app'' ''sha256:A'' () = (Response 202 Undecodable, ())"
    by (simp add: sample_env_def sample_now_def datetime_max_def microseconds_per_day_def)
  note c = retention_example [of sample_now "''sha256:A''" "''sha256:B''" "''sha256:C''" ?E "()" "()"
      "''app''" 202 Undecodable "()", THEN conjunct2, THEN mp, OF h]
  show ?thesis
    by (rule conjI [OF h c])
qed

section \<open>The orphan sweep\<close>

lemma fetch_image_tags_empty:
  assumes "http_get_tags E repo w = (Response status b, w1)"
    and "status \<noteq> 200 \<or> b = Decoded None \<or> b = Decoded (Some [])"
  shows "fetch_image_tags E repo w = (Inr [], w1, [GET_tags repo])"
  using assms by (auto simp: fetch_image_tags_def)

lemma remove_orphaned_present:
  assumes "os_path_exists E (os_path_join (REPOSITORY_PATH C) repo) w1 = (True, w2)"
    and "run_rm E (os_path_join (REPOSITORY_PATH C) repo) w2 = (p, w3)"
  shows "remove_orphaned C E repo w1 =
     (w3, [LOG INFO (Removing_orphaned_repository repo),
           PATH_exists (os_path_join (REPOSITORY_PATH C) repo),
           RUN_rm_rf (os_path_join (REPOSITORY_PATH C) repo),
           if p = Exit 0 then LOG INFO (Orphaned_repository_removed repo)
           else LOG ERROR (Failed_to_remove_orphaned_repository repo)])"
  using assms by (simp add: remove_orphaned_def Let_def)





section \<open>Deletions the registry rejects\<close>

lemma delete_image_response:
  "http_delete_manifest E repository digest w = (Response status b, w1) \<Longrightarrow>
   delete_image E repository tag digest w =
     (Inr (), w1, DELETE_manifest repository digest #
        (if status = 202 then [LOG INFO (Deleted_image repository tag digest)] else []))"
  by (simp add: delete_image_def)


text \<open>
  Claim C7 as stated fails: a deletion answered with 500 leaves no line in the log, and
  \<^verbatim>\<open>deleted_count\<close> counts it (line 164 runs whatever the answer was), so that the
  line on the retention policy is not logged either.
\<close>

theorem rejected_deletion_counterexample:
  "delete_loop (sample_env No_response No_response (Response 500 Undecodable) (Exit 0)) ''app'' {}
     sample_now (sort_descending sample_tag_details) ()
     = (Inr 1, (), [DELETE_manifest ''app'' ''sha256:v1'']) \<and>
   process_tag_details (sample_env No_response No_response (Response 500 Undecodable) (Exit 0))
     ''app'' 0 0 sample_tag_details ()
     = (Inr (), (), [DELETE_manifest ''app'' ''sha256:v1''])"
  by code_simp

text \<open>
  Claim C7, amended. For every deletion request that is answered, \<^verbatim>\<open>delete_image\<close>
  returns normally; only an answer of 202 is logged, as a deleted image, and any other
  status leaves no log line; the loop goes on with the remaining tag details, and it
  raises only if it raises on them.
\<close>

theorem rejected_deletion_is_silent:
  "http_delete_manifest E repository digest w = (Response status b, w1) \<and>
   tag \<notin> recent_tags \<and> creation_date < threshold_date \<longrightarrow>
     delete_image E repository tag digest w =
       (Inr (), w1, DELETE_manifest repository digest #
          (if status = 202 then [LOG INFO (Deleted_image repository tag digest)] else [])) \<and>
     events (delete_loop E repository recent_tags threshold_date ((tag, creation_date, digest) # rest) w)
       = DELETE_manifest repository digest #
         (if status = 202 then [LOG INFO (Deleted_image repository tag digest)] else []) @
         events (delete_loop E repository recent_tags threshold_date rest w1) \<and>
     isl (result (delete_loop E repository recent_tags threshold_date ((tag, creation_date, digest) # rest) w))
       = isl (result (delete_loop E repository recent_tags threshold_date rest w1))"
proof (intro impI conjI)
  assume a: "http_delete_manifest E repository digest w = (Response status b, w1) \<and>
   tag \<notin> recent_tags \<and> creation_date < threshold_date"
  then show d: "delete_image E repository tag digest w =
       (Inr (), w1, DELETE_manifest repository digest #
          (if status = 202 then [LOG INFO (Deleted_image repository tag digest)] else []))"
    by (simp add: delete_image_response)
  from a d show "events (delete_loop E repository recent_tags threshold_date ((tag, creation_date, digest) # rest) w)
       = DELETE_manifest repository digest #
         (if status = 202 then [LOG INFO (Deleted_image repository tag digest)] else []) @
         events (delete_loop E repository recent_tags threshold_date rest w1)"
    by (cases "delete_loop E repository recent_tags threshold_date rest w1")
       (simp split: sum.splits)
  from a d show "isl (result (delete_loop E repository recent_tags threshold_date ((tag, creation_date, digest) # rest) w))
       = isl (result (delete_loop E repository recent_tags threshold_date rest w1))"
    by (cases "delete_loop E repository recent_tags threshold_date rest w1")
       (simp split: sum.splits)
qed


theorem rejected_deletion_is_silent_witness:
  "(http_delete_manifest (sample_env No_response No_response (Response 500 Undecodable) (Exit 0))
      ''app'' ''sha256:v1'' () = (Response 500 Undecodable, ()) \<and>
    ''v1'' \<notin> {} \<and> sample_created < sample_now) \<and>
   delete_image (sample_env No_response No_response (Response 500 Undecodable) (Exit 0))
       ''app'' ''v1'' ''sha256:v1'' ()
     = (Inr (), (), DELETE_manifest ''app'' ''sha256:v1'' #
          (if (500 :: int) = 202 then [LOG INFO (Deleted_image ''app'' ''v1'' ''sha256:v1'')] else [])) \<and>
   events (delete_loop (sample_env No_response No_response (Response 500 Undecodable) (Exit 0))
             ''app'' {} sample_now [(''v1'', sample_created, ''sha256:v1'')] ())
     = DELETE_manifest ''app'' ''sha256:v1'' #
       (if (500 :: int) = 202 then [LOG INFO (Deleted_image ''app'' ''v1'' ''sha256:v1'')] else []) @
       events (delete_loop (sample_env No_response No_response (Response 500 Undecodable) (Exit 0))
                 ''app'' {} sample_now [] ()) \<and>
   isl (result (delete_loop (sample_env No_response No_response (Response 500 Undecodable) (Exit 0))
                  ''app'' {} sample_now [(''v1'', sample_created, ''sha256:v1'')] ()))
     = isl (result (delete_loop (sample_env No_response No_response (Response 500 Undecodable) (Exit 0))
                      ''app'' {} sample_now [] ()))"
proof -
  let ?E = "sample_env No_response No_response (Response 500 Undecodable) (Exit 0)"
  have h: "http_delete_manifest ?E ''app'' ''sha256:v1'' () = (Response 500 Undecodable, ()) \<and>
    ''v1'' \<notin> {} \<and> sample_created < sample_now"
    by (simp add: sample_env_def sample_created_def sample_now_def)
  note c = rejected_deletion_is_silent [of ?E "''app''" "''sha256:v1''" "()" 500 Undecodable "()"
      "''v1''" "{}" sample_created sample_now "[]", THEN mp, OF h]
  show ?thesis
    by (rule conjI [OF h c])
qed


section \<open>Fetches that fail\<close>

lemma process_repository_no_tags:
  assumes "repository \<notin> set (EXCLUDE_REPOS C)"
    and "http_get_tags E repository w = (Response status b, w1)" and "status \<noteq> 200"
  shows "process_repository C E repository w =
     (Inr (), w1, [GET_tags repository, LOG INFO (Skipping_no_images repository)])"
  using assms by (simp add: process_repository_def fetch_image_tags_def)

lemma resolve_tags_manifest_failed:
  assumes "http_get_manifest E repository tag w = (Response status b, w1)" and "status \<noteq> 200"
  shows "resolve_tags E repository (tag # tags) w =
     prepend [GET_manifest repository tag] (resolve_tags E repository tags w1)"
  using assms by (simp add: fetch_manifest_and_config_digest_def)

lemma resolve_tags_blob_failed:
  assumes "http_get_manifest E repository tag w = (Response 200 (Decoded (Some d, Some c)), w1)"
    and "d \<noteq> []" and "c \<noteq> []"
    and "http_get_blob E repository c w1 = (Response status b, w2)" and "status \<noteq> 200"
  shows "resolve_tags E repository (tag # tags) w =
     prepend [GET_manifest repository tag, GET_blob repository c] (resolve_tags E repository tags w2)"
  using assms by (simp add: fetch_manifest_and_config_digest_def truthy_def fetch_creation_date_def)

lemma main_catalog_failed:
  assumes "http_get_catalog E w = (Response status b, w1)" and "400 \<le> status" and "status < 600"
  shows "main C E w = (w1, [GET_catalog, LOG ERROR (Error (HTTPError status))])"
  using assms by (simp add: main_def main_try_def fetch_repositories_def)


text \<open>
  Claim C6 as stated fails for the catalog: line 53 raises on a 4xx or 5xx answer, and the
  handler of line 177 ends the run, without garbage collection and without orphan sweep.
\<close>

theorem catalog_failure_counterexample:
  "main (sample_config [])
     (sample_env (Response 500 Undecodable) (Response 200 (Decoded (Some [''v1''])))
        (Response 202 Undecodable) (Exit 0)) ()
   = ((), [GET_catalog, LOG ERROR (Error (HTTPError 500))])"
  by code_simp

text \<open>
  Claim C6, amended. While the repositories are processed, a tag list answered with a
  status other than 200 skips that repository, and a manifest or a config blob answered
  with a status other than 200 skips that tag: what follows is the run on the remaining
  repositories or tags. A catalog answered with a 4xx or 5xx status raises
  \<^verbatim>\<open>HTTPError\<close>; in \<^verbatim>\<open>main\<close> the error is logged and the run ends there.
\<close>

theorem fetch_failures_by_kind:
  "(repository \<notin> set (EXCLUDE_REPOS C) \<and>
    http_get_tags E repository w = (Response status b, w1) \<and> status \<noteq> 200 \<longrightarrow>
      process_repositories C E (repository # repositories) w =
        prepend [GET_tags repository, LOG INFO (Skipping_no_images repository)]
          (process_repositories C E repositories w1))
   \<and> (http_get_manifest E repository tag w = (Response status bm, w1) \<and> status \<noteq> 200 \<longrightarrow>
      resolve_tags E repository (tag # tags) w =
        prepend [GET_manifest repository tag] (resolve_tags E repository tags w1))
   \<and> (http_get_manifest E repository tag w = (Response 200 (Decoded (Some d, Some c)), w1) \<and>
      d \<noteq> [] \<and> c \<noteq> [] \<and>
      http_get_blob E repository c w1 = (Response status bb, w2) \<and> status \<noteq> 200 \<longrightarrow>
      resolve_tags E repository (tag # tags) w =
        prepend [GET_manifest repository tag, GET_blob repository c]
          (resolve_tags E repository tags w2))
   \<and> (http_get_catalog E w = (Response status bc, w1) \<and> 400 \<le> status \<and> status < 600 \<longrightarrow>
      main C E w = (w1, [GET_catalog, LOG ERROR (Error (HTTPError status))]))"
proof (intro conjI impI)
  assume "repository \<notin> set (EXCLUDE_REPOS C) \<and>
    http_get_tags E repository w = (Response status b, w1) \<and> status \<noteq> 200"
  then have "process_repository C E repository w =
     (Inr (), w1, [GET_tags repository, LOG INFO (Skipping_no_images repository)])"
    by (elim conjE) (rule process_repository_no_tags)
  then show "process_repositories C E (repository # repositories) w =
        prepend [GET_tags repository, LOG INFO (Skipping_no_images repository)]
          (process_repositories C E repositories w1)"
    by simp
next
  assume "http_get_manifest E repository tag w = (Response status bm, w1) \<and> status \<noteq> 200"
  then show "resolve_tags E repository (tag # tags) w =
        prepend [GET_manifest repository tag] (resolve_tags E repository tags w1)"
    by (elim conjE) (rule resolve_tags_manifest_failed)
next
  assume "http_get_manifest E repository tag w = (Response 200 (Decoded (Some d, Some c)), w1) \<and>
      d \<noteq> [] \<and> c \<noteq> [] \<and>
      http_get_blob E repository c w1 = (Response status bb, w2) \<and> status \<noteq> 200"
  then show "resolve_tags E repository (tag # tags) w =
        prepend [GET_manifest repository tag, GET_blob repository c]
          (resolve_tags E repository tags w2)"
    by (elim conjE) (rule resolve_tags_blob_failed)
next
  assume "http_get_catalog E w = (Response status bc, w1) \<and> 400 \<le> status \<and> status < 600"
  then show "main C E w = (w1, [GET_catalog, LOG ERROR (Error (HTTPError status))])"
    by (elim conjE) (rule main_catalog_failed)
qed


theorem fetch_failures_by_kind_witness:
  "(''app'' \<notin> set (EXCLUDE_REPOS (sample_config [])) \<and>
    http_get_tags (sample_env No_response (Response 503 Undecodable) No_response (Exit 0)) ''app'' ()
      = (Response 503 Undecodable, ()) \<and> (503 :: int) \<noteq> 200) \<and>
   process_repositories (sample_config [])
       (sample_env No_response (Response 503 Undecodable) No_response (Exit 0)) [''app'', ''web''] ()
     = prepend [GET_tags ''app'', LOG INFO (Skipping_no_images ''app'')]
         (process_repositories (sample_config [])
            (sample_env No_response (Response 503 Undecodable) No_response (Exit 0)) [''web''] ()) \<and>
   (http_get_manifest
      ((sample_env No_response No_response No_response (Exit 0))
         \<lparr> http_get_manifest := \<lambda>repository tag w. (Response 404 Undecodable, w) \<rparr>) ''app'' ''v1'' ()
      = (Response 404 Undecodable, ()) \<and> (404 :: int) \<noteq> 200) \<and>
   resolve_tags
       ((sample_env No_response No_response No_response (Exit 0))
          \<lparr> http_get_manifest := \<lambda>repository tag w. (Response 404 Undecodable, w) \<rparr>)
       ''app'' [''v1'', ''v2''] ()
     = prepend [GET_manifest ''app'' ''v1'']
         (resolve_tags
            ((sample_env No_response No_response No_response (Exit 0))
               \<lparr> http_get_manifest := \<lambda>repository tag w. (Response 404 Undecodable, w) \<rparr>)
            ''app'' [''v2''] ()) \<and>
   (http_get_manifest
      ((sample_env No_response No_response No_response (Exit 0))
         \<lparr> http_get_blob := \<lambda>repository digest w. (Response 404 Undecodable, w) \<rparr>) ''app'' ''v1'' ()
      = (Response 200 (Decoded (Some ''sha256:v1'', Some ''sha256:config-v1'')), ()) \<and>
    ''sha256:v1'' \<noteq> [] \<and> ''sha256:config-v1'' \<noteq> [] \<and>
    http_get_blob
      ((sample_env No_response No_response No_response (Exit 0))
         \<lparr> http_get_blob := \<lambda>repository digest w. (Response 404 Undecodable, w) \<rparr>)
      ''app'' ''sha256:config-v1'' ()
      = (Response 404 Undecodable, ()) \<and> (404 :: int) \<noteq> 200) \<and>
   resolve_tags
       ((sample_env No_response No_response No_response (Exit 0))
          \<lparr> http_get_blob := \<lambda>repository digest w. (Response 404 Undecodable, w) \<rparr>)
       ''app'' [''v1'', ''v2''] ()
     = prepend [GET_manifest ''app'' ''v1'', GET_blob ''app'' ''sha256:config-v1'']
         (resolve_tags
            ((sample_env No_response No_response No_response (Exit 0))
               \<lparr> http_get_blob := \<lambda>repository digest w. (Response 404 Undecodable, w) \<rparr>)
            ''app'' [''v2''] ()) \<and>
   (http_get_catalog (sample_env (Response 503 Undecodable) No_response No_response (Exit 0)) ()
      = (Response 503 Undecodable, ()) \<and> (400 :: int) \<le> 503 \<and> (503 :: int) < 600) \<and>
   main (sample_config []) (sample_env (Response 503 Undecodable) No_response No_response (Exit 0)) ()
     = ((), [GET_catalog, LOG ERROR (Error (HTTPError 503))])"
proof -
  let ?C = "sample_config []"
  let ?Et = "sample_env No_response (Response 503 Undecodable) No_response (Exit 0)"
  let ?Em = "(sample_env No_response No_response No_response (Exit 0))
         \<lparr> http_get_manifest := \<lambda>repository tag w. (Response 404 Undecodable, w) \<rparr>"
  let ?Eb = "(sample_env No_response No_response No_response (Exit 0))
         \<lparr> http_get_blob := \<lambda>repository digest w. (Response 404 Undecodable, w) \<rparr>"
  let ?Ec = "sample_env (Response 503 Undecodable) No_response No_response (Exit 0)"
  have h1: "''app'' \<notin> set (EXCLUDE_REPOS ?C) \<and>
    http_get_tags ?Et ''app'' () = (Response 503 Undecodable, ()) \<and> (503 :: int) \<noteq> 200"
    by (simp add: sample_env_def sample_config_def)
  have h2: "http_get_manifest ?Em ''app'' ''v1'' () = (Response 404 Undecodable, ()) \<and> (404 :: int) \<noteq> 200"
    by (simp add: sample_env_def)
  have h3: "http_get_manifest ?Eb ''app'' ''v1'' ()
      = (Response 200 (Decoded (Some ''sha256:v1'', Some ''sha256:config-v1'')), ()) \<and>
    ''sha256:v1'' \<noteq> [] \<and> ''sha256:config-v1'' \<noteq> [] \<and>
    http_get_blob ?Eb ''app'' ''sha256:config-v1'' () = (Response 404 Undecodable, ()) \<and> (404 :: int) \<noteq> 200"
    by (simp add: sample_env_def)
  have h4: "http_get_catalog ?Ec () = (Response 503 Undecodable, ()) \<and> (400 :: int) \<le> 503 \<and> (503 :: int) < 600"
    by (simp add: sample_env_def)
  note c1 = fetch_failures_by_kind [where C = ?C and E = ?Et and repository = "''app''" and w = "()"
      and status = 503 and b = Undecodable and ?w1.0 = "()" and repositories = "[''web'']",
      THEN conjunct1, THEN mp, OF h1]
  note c2 = fetch_failures_by_kind [where E = ?Em and repository = "''app''" and tag = "''v1''"
      and w = "()" and status = 404 and bm = Undecodable and ?w1.0 = "()" and tags = "[''v2'']",
      THEN conjunct2, THEN conjunct1, THEN mp, OF h2]
  note c3 = fetch_failures_by_kind [where E = ?Eb and repository = "''app''" and tag = "''v1''"
      and w = "()" and d = "''sha256:v1''" and c = "''sha256:config-v1''" and ?w1.0 = "()"
      and status = 404 and bb = Undecodable and ?w2.0 = "()" and tags = "[''v2'']",
      THEN conjunct2, THEN conjunct2, THEN conjunct1, THEN mp, OF h3]
  note c4 = fetch_failures_by_kind [where C = ?C and E = ?Ec and w = "()" and status = 503
      and bc = Undecodable and ?w1.0 = "()",
      THEN conjunct2, THEN conjunct2, THEN conjunct2, THEN mp, OF h4]
  show ?thesis
    by (rule conjI [OF h1 conjI [OF c1 conjI [OF h2 conjI [OF c2 conjI [OF h3 conjI [OF c3 conjI [OF h4 c4]]]]]]])
qed

section \<open>Which repository a request is about\<close>

lemma about_simps [simp]:
  "about r (LOG l m)" "about r (GET_tags r') = (r' = r)" "about r (GET_manifest r' t) = (r' = r)"
  "about r (GET_blob r' d) = (r' = r)" "about r (DELETE_manifest r' d) = (r' = r)"
  "\<not> about r GET_catalog" "\<not> about r RUN_garbage_collect" "\<not> about r (PATH_exists p)"
  "\<not> about r (RUN_rm_rf p)"
  by (auto simp: about_def)

lemma fetch_image_tags_about:
  "\<forall>e \<in> set (events (fetch_image_tags E r w)). about r e"
  by (auto simp: fetch_image_tags_def split: prod.splits reply.splits body.splits if_splits)

lemma fetch_manifest_about:
  "\<forall>e \<in> set (events (fetch_manifest_and_config_digest E r t w)). about r e"
  by (auto simp: fetch_manifest_and_config_digest_def
      split: prod.splits reply.splits body.splits if_splits)

lemma fetch_creation_date_about:
  "\<forall>e \<in> set (events (fetch_creation_date E r c w)). about r e"
  by (auto simp: fetch_creation_date_def
      split: prod.splits reply.splits body.splits option.splits if_splits)

lemma delete_image_about:
  "\<forall>e \<in> set (events (delete_image E r t d w)). about r e"
  by (cases rule: delete_image_cases [of E r t d w]) auto

lemma delete_loop_about:
  "\<forall>e \<in> set (events (delete_loop E r recent th xs w)). about r e"
proof (induction xs arbitrary: w)
  case Nil
  then show ?case by simp
next
  case (Cons x xs)
  obtain t c d where x: "x = (t, c, d)" by (cases x) auto
  show ?case
  proof (cases "t \<notin> recent \<and> c < th")
    case False
    then have "delete_loop E r recent th (x # xs) w = delete_loop E r recent th xs w"
      by (auto simp: x)
    with Cons show ?thesis by simp
  next
    case True
    obtain r1 w1 es1 where d: "delete_image E r t d w = (r1, w1, es1)"
      by (cases "delete_image E r t d w") auto
    with delete_image_about [of E r t d w] have a1: "\<forall>e \<in> set es1. about r e" by simp
    obtain r2 w2 es2 where l: "delete_loop E r recent th xs w1 = (r2, w2, es2)"
      by (cases "delete_loop E r recent th xs w1") auto
    with Cons.IH [of w1] have a2: "\<forall>e \<in> set es2. about r e" by simp
    from True d l have "set (events (delete_loop E r recent th (x # xs) w)) \<subseteq> set es1 \<union> set es2"
      by (auto simp: x split: sum.splits)
    with a1 a2 show ?thesis by blast
  qed
qed

lemma resolve_tags_about:
  "\<forall>e \<in> set (events (resolve_tags E r tags w)). about r e"
proof (induction tags arbitrary: w)
  case Nil
  then show ?case by simp
next
  case (Cons t tags)
  obtain r1 w1 es1 where m: "fetch_manifest_and_config_digest E r t w = (r1, w1, es1)"
    by (cases "fetch_manifest_and_config_digest E r t w") auto
  with fetch_manifest_about [of E r t w] have a1: "\<forall>e \<in> set es1. about r e" by simp
  have ih: "\<And>w'. \<forall>e \<in> set (events (resolve_tags E r tags w')). about r e"
    using Cons.IH by simp
  show ?case
  proof (cases "\<exists>d c. r1 = Inr (Some (Some d, Some c)) \<and> d \<noteq> [] \<and> c \<noteq> []")
    case False
    then have "set (events (resolve_tags E r (t # tags) w))
        \<subseteq> set es1 \<union> set (events (resolve_tags E r tags w1))"
      using m by (auto split: sum.splits option.splits)
    with a1 ih [of w1] show ?thesis by blast
  next
    case True
    then obtain d c where r1: "r1 = Inr (Some (Some d, Some c))" "d \<noteq> []" "c \<noteq> []" by blast
    obtain r2 w2 es2 where f: "fetch_creation_date E r c w1 = (r2, w2, es2)"
      by (cases "fetch_creation_date E r c w1") auto
    with fetch_creation_date_about [of E r c w1] have a2: "\<forall>e \<in> set es2. about r e" by simp
    obtain r3 w3 es3 where l: "resolve_tags E r tags w2 = (r3, w3, es3)"
      by (cases "resolve_tags E r tags w2") auto
    with ih [of w2] have a3: "\<forall>e \<in> set es3. about r e" by simp
    from m r1 f l have "set (events (resolve_tags E r (t # tags) w)) \<subseteq> set es1 \<union> set es2 \<union> set es3"
      by (auto split: sum.splits option.splits)
    with a1 a2 a3 show ?thesis by blast
  qed
qed

lemma process_tag_details_about:
  "\<forall>e \<in> set (events (process_tag_details E r rc days tds w)). about r e"
proof -
  obtain now w1 where n: "datetime_now_utc E w = (now, w1)"
    by (cases "datetime_now_utc E w") auto
  show ?thesis
  proof (cases "minus_days now days")
    case (Inl x)
    with n show ?thesis by (simp add: process_tag_details_def Let_def)
  next
    case (Inr th)
    let ?loop = "delete_loop E r (set (map fst (slice_to rc (sort_descending tds)))) th (sort_descending tds) w1"
    obtain r2 w2 es2 where l: "?loop = (r2, w2, es2)" by (cases ?loop) auto
    with delete_loop_about [of E r _ th _ w1] have "\<forall>e \<in> set es2. about r e"
      by (metis events_simp)
    with n Inr l show ?thesis
      by (auto simp: process_tag_details_def Let_def split: sum.splits)
  qed
qed

lemma process_repository_about:
  "\<forall>e \<in> set (events (process_repository C E r w)). about r e"
proof (cases "r \<in> set (EXCLUDE_REPOS C)")
  case True
  then show ?thesis by (simp add: process_repository_def)
next
  case False
  obtain r1 w1 es1 where t: "fetch_image_tags E r w = (r1, w1, es1)"
    by (cases "fetch_image_tags E r w") auto
  with fetch_image_tags_about [of E r w] have a1: "\<forall>e \<in> set es1. about r e" by simp
  show ?thesis
  proof (cases "\<exists>tags. r1 = Inr tags \<and> tags \<noteq> []")
    case nt: False
    with False t a1 show ?thesis
      by (auto simp: process_repository_def split: sum.splits)
  next
    case True
    then obtain tags where r1: "r1 = Inr tags" "tags \<noteq> []" by blast
    obtain r2 w2 es2 where rs: "resolve_tags E r tags w1 = (r2, w2, es2)"
      by (cases "resolve_tags E r tags w1") auto
    with resolve_tags_about [of E r tags w1] have a2: "\<forall>e \<in> set es2. about r e" by simp
    have a3: "\<And>rc days tds. \<forall>e \<in> set (events (process_tag_details E r rc days tds w2)). about r e"
      by (rule process_tag_details_about)
    from False t r1 rs a1 a2 a3 show ?thesis
      by (auto simp: process_repository_def Let_def split: sum.splits)
  qed
qed

lemma process_repository_excluded:
  "repository \<in> set (EXCLUDE_REPOS C) \<Longrightarrow> process_repository C E repository w = (Inr (), w, [])"
  by (simp add: process_repository_def)

lemma process_repositories_about:
  "\<forall>e \<in> set (events (process_repositories C E rs w)).
     \<exists>r \<in> set rs. r \<notin> set (EXCLUDE_REPOS C) \<and> about r e"
proof (induction rs arbitrary: w)
  case Nil
  then show ?case by simp
next
  case (Cons r rs)
  obtain r1 w1 es1 where p: "process_repository C E r w = (r1, w1, es1)"
    by (cases "process_repository C E r w") auto
  have a1: "\<forall>e \<in> set es1. r \<notin> set (EXCLUDE_REPOS C) \<and> about r e"
  proof (cases "r \<in> set (EXCLUDE_REPOS C)")
    case True
    with p show ?thesis by (simp add: process_repository_excluded)
  next
    case False
    with p process_repository_about [of C E r w] show ?thesis by simp
  qed
  obtain r2 w2 es2 where l: "process_repositories C E rs w1 = (r2, w2, es2)"
    by (cases "process_repositories C E rs w1") auto
  with Cons.IH [of w1]
  have a2: "\<forall>e \<in> set es2. \<exists>r \<in> set rs. r \<notin> set (EXCLUDE_REPOS C) \<and> about r e" by simp
  from p l have "set (events (process_repositories C E (r # rs) w)) \<subseteq> set es1 \<union> set es2"
    by (auto split: sum.splits)
  with a1 a2 show ?case by fastforce
qed

section \<open>Garbage collection in the run\<close>

lemma garbage_collections_append [simp]:
  "garbage_collections (xs @ ys) = garbage_collections xs + garbage_collections ys"
  by (simp add: garbage_collections_def)

lemma garbage_collections_Nil [simp]: "garbage_collections [] = 0"
  by (simp add: garbage_collections_def)

lemma garbage_collections_Cons [simp]:
  "garbage_collections (e # es) = (if e = RUN_garbage_collect then 1 else 0) + garbage_collections es"
  by (simp add: garbage_collections_def)

lemma garbage_collections_none:
  "\<forall>e \<in> set es. e \<noteq> RUN_garbage_collect \<Longrightarrow> garbage_collections es = 0"
  by (induction es) auto

lemma fetch_repositories_events [simp]: "events (fetch_repositories E w) = [GET_catalog]"
  by (auto simp: fetch_repositories_def split: prod.splits reply.splits body.splits)

lemma process_repositories_no_gc:
  "garbage_collections (events (process_repositories C E rs w)) = 0"
proof (rule garbage_collections_none, rule ballI)
  fix e assume "e \<in> set (events (process_repositories C E rs w))"
  with process_repositories_about [of C E rs w] obtain r where "about r e" by blast
  then show "e \<noteq> RUN_garbage_collect" by auto
qed

lemma remove_orphaned_no_gc: "garbage_collections (snd (remove_orphaned C E r w)) = 0"
  by (auto simp: remove_orphaned_def Let_def split: prod.splits)

lemma remove_empty_loop_no_gc:
  "garbage_collections (events (remove_empty_loop C E rs w)) = 0"
proof (induction rs arbitrary: w)
  case Nil
  then show ?case by simp
next
  case (Cons r rs)
  obtain r1 w1 es1 where t: "fetch_image_tags E r w = (r1, w1, es1)"
    by (cases "fetch_image_tags E r w") auto
  with fetch_image_tags_about [of E r w] have "\<forall>e \<in> set es1. e \<noteq> RUN_garbage_collect"
    by auto
  then have g1: "garbage_collections es1 = 0" by (rule garbage_collections_none)
  obtain w2 es2 where o: "remove_orphaned C E r w1 = (w2, es2)"
    by (cases "remove_orphaned C E r w1") auto
  with remove_orphaned_no_gc [of C E r w1] have g2: "garbage_collections es2 = 0" by simp
  from t o g1 g2 Cons.IH [of w1] Cons.IH [of w2] show ?case
    by (auto split: sum.splits)
qed

lemma remove_empty_repositories_no_gc:
  "garbage_collections (events (remove_empty_repositories C E w)) = 0"
proof -
  obtain r1 w1 es1 where f: "fetch_repositories E w = (r1, w1, es1)"
    by (cases "fetch_repositories E w") auto
  with fetch_repositories_events [of E w] have "es1 = [GET_catalog]" by simp
  with f remove_empty_loop_no_gc [of C E _ w1] show ?thesis
    by (auto simp: remove_empty_repositories_def split: sum.splits)
qed

lemma run_garbage_collection_exit:
  "run_registry_garbage_collect E w = (Exit returncode, w') \<Longrightarrow>
   run_garbage_collection E w =
     (Inr (), w', [RUN_garbage_collect,
                   if returncode = 0 then LOG INFO Garbage_collection_completed
                   else LOG ERROR Garbage_collection_failed])"
  by (simp add: run_garbage_collection_def)

lemma run_garbage_collection_once:
  "garbage_collections (events (run_garbage_collection E w)) = 1"
  by (auto simp: run_garbage_collection_def split: prod.splits process.splits)

lemma main_events:
  "snd (main C E w) =
     events (main_try C E w) @
     (case result (main_try C E w) of Inl e \<Rightarrow> [LOG ERROR (Error e)] | Inr u \<Rightarrow> [])"
  by (cases "main_try C E w") (auto simp: main_def split: sum.splits)

lemma main_try_at_most_once: "garbage_collections (events (main_try C E w)) \<le> 1"
proof -
  obtain r1 w1 es1 where f: "fetch_repositories E w = (r1, w1, es1)"
    by (cases "fetch_repositories E w") auto
  with fetch_repositories_events [of E w] have g1: "garbage_collections es1 = 0" by simp
  show ?thesis
  proof (cases r1)
    case (Inl e)
    with f g1 show ?thesis by (simp add: main_try_def)
  next
    case (Inr repositories)
    obtain r2 w2 es2 where p: "process_repositories C E repositories w1 = (r2, w2, es2)"
      by (cases "process_repositories C E repositories w1") auto
    with process_repositories_no_gc [of C E repositories w1]
    have g2: "garbage_collections es2 = 0" by simp
    show ?thesis
    proof (cases r2)
      case (Inl e)
      with f Inr p g1 g2 show ?thesis by (simp add: main_try_def)
    next
      case r2: (Inr u)
      obtain r3 w3 es3 where g: "run_garbage_collection E w2 = (r3, w3, es3)"
        by (cases "run_garbage_collection E w2") auto
      with run_garbage_collection_once [of E w2] have g3: "garbage_collections es3 = 1" by simp
      from f Inr p r2 g g1 g2 g3 remove_empty_repositories_no_gc [of C E w3] show ?thesis
        by (cases "remove_empty_repositories C E w3") (auto simp: main_try_def split: sum.splits)
    qed
  qed
qed

lemma main_at_most_once: "garbage_collections (snd (main C E w)) \<le> 1"
  using main_try_at_most_once [of C E w] by (auto simp: main_events split: sum.splits)

lemma main_after_processing:
  assumes f: "fetch_repositories E w = (Inr repositories, w1, es1)"
    and p: "process_repositories C E repositories w1 = (Inr u, w2, es2)"
    and g: "run_registry_garbage_collect E w2 = (Exit returncode, w3)"
  shows "snd (main C E w) =
     es1 @ es2 @
     [RUN_garbage_collect,
      if returncode = 0 then LOG INFO Garbage_collection_completed
      else LOG ERROR Garbage_collection_failed] @
     events (remove_empty_repositories C E w3) @
     (case result (remove_empty_repositories C E w3) of
        Inl e \<Rightarrow> [LOG ERROR (Error e)] | Inr u \<Rightarrow> [])"
  using f p run_garbage_collection_exit [OF g]
  by (cases "remove_empty_repositories C E w3") (auto simp: main_def main_try_def split: sum.splits)

text \<open>
  Claim C8 as stated fails: a run whose catalog request is answered with 500 triggers no
  garbage collection at all.
\<close>

theorem garbage_collection_counterexample:
  "garbage_collections
     (snd (main (sample_config [])
             (sample_env (Response 500 Undecodable) (Response 200 (Decoded (Some [''v1''])))
                (Response 202 Undecodable) (Exit 0)) ())) = 0"
  by code_simp


text \<open>
  Claim C8, amended. No run triggers garbage collection more than once. When the catalog
  is listed and every repository is processed without an exception, garbage collection
  is triggered exactly once, after the requests and log lines of all repositories and
  before those of the orphan sweep; when it exits with a return code other than zero the
  failure is logged and the orphan sweep runs all the same.
\<close>

theorem garbage_collection_order:
  "garbage_collections (snd (main C E w)) \<le> 1
   \<and> (fetch_repositories E w = (Inr repositories, w1, es1) \<and>
      process_repositories C E repositories w1 = (Inr u, w2, es2) \<and>
      run_registry_garbage_collect E w2 = (Exit returncode, w3) \<longrightarrow>
        snd (main C E w) =
          es1 @ es2 @
          [RUN_garbage_collect,
           if returncode = 0 then LOG INFO Garbage_collection_completed
           else LOG ERROR Garbage_collection_failed] @
          events (remove_empty_repositories C E w3) @
          (case result (remove_empty_repositories C E w3) of
             Inl e \<Rightarrow> [LOG ERROR (Error e)] | Inr u \<Rightarrow> []) \<and>
        garbage_collections (es1 @ es2) = 0 \<and>
        garbage_collections (events (remove_empty_repositories C E w3)) = 0 \<and>
        garbage_collections (snd (main C E w)) = 1)"
proof (intro conjI impI)
  show "garbage_collections (snd (main C E w)) \<le> 1"
    by (rule main_at_most_once)
next
  assume a: "fetch_repositories E w = (Inr repositories, w1, es1) \<and>
      process_repositories C E repositories w1 = (Inr u, w2, es2) \<and>
      run_registry_garbage_collect E w2 = (Exit returncode, w3)"
  then show m: "snd (main C E w) =
          es1 @ es2 @
          [RUN_garbage_collect,
           if returncode = 0 then LOG INFO Garbage_collection_completed
           else LOG ERROR Garbage_collection_failed] @
          events (remove_empty_repositories C E w3) @
          (case result (remove_empty_repositories C E w3) of
             Inl e \<Rightarrow> [LOG ERROR (Error e)] | Inr u \<Rightarrow> [])"
    by (elim conjE) (rule main_after_processing)
  from a fetch_repositories_events [of E w] process_repositories_no_gc [of C E repositories w1]
  show b: "garbage_collections (es1 @ es2) = 0"
    by simp
  show s: "garbage_collections (events (remove_empty_repositories C E w3)) = 0"
    by (rule remove_empty_repositories_no_gc)
  from b s show "garbage_collections (snd (main C E w)) = 1"
    unfolding m by (auto split: sum.splits)
qed


theorem garbage_collection_order_witness:
  "(fetch_repositories
      (sample_env (Response 200 (Decoded (Some [''app'']))) (Response 200 (Decoded (Some [''v1''])))
         (Response 202 Undecodable) (Exit 1)) ()
      = (Inr [''app''], (), [GET_catalog]) \<and>
    process_repositories (sample_config [])
      (sample_env (Response 200 (Decoded (Some [''app'']))) (Response 200 (Decoded (Some [''v1''])))
         (Response 202 Undecodable) (Exit 1)) [''app''] ()
      = (Inr (), (),
         [GET_tags ''app'', GET_manifest ''app'' ''v1'', GET_blob ''app'' ''sha256:config-v1'',
          DELETE_manifest ''app'' ''sha256:v1'', LOG INFO (Deleted_image ''app'' ''v1'' ''sha256:v1'')]) \<and>
    run_registry_garbage_collect
      (sample_env (Response 200 (Decoded (Some [''app'']))) (Response 200 (Decoded (Some [''v1''])))
         (Response 202 Undecodable) (Exit 1)) ()
      = (Exit 1, ())) \<and>
   snd (main (sample_config [])
          (sample_env (Response 200 (Decoded (Some [''app'']))) (Response 200 (Decoded (Some [''v1''])))
             (Response 202 Undecodable) (Exit 1)) ())
     = [GET_catalog, GET_tags ''app'', GET_manifest ''app'' ''v1'',
        GET_blob ''app'' ''sha256:config-v1'', DELETE_manifest ''app'' ''sha256:v1'',
        LOG INFO (Deleted_image ''app'' ''v1'' ''sha256:v1''),
        RUN_garbage_collect, LOG ERROR Garbage_collection_failed,
        GET_catalog, GET_tags ''app''] \<and>
   garbage_collections
     (snd (main (sample_config [])
             (sample_env (Response 200 (Decoded (Some [''app'']))) (Response 200 (Decoded (Some [''v1''])))
                (Response 202 Undecodable) (Exit 1)) ())) = 1"
proof -
  let ?C = "sample_config []"
  let ?E = "sample_env (Response 200 (Decoded (Some [''app'']))) (Response 200 (Decoded (Some [''v1''])))
         (Response 202 Undecodable) (Exit 1)"
  have h: "fetch_repositories ?E () = (Inr [''app''], (), [GET_catalog]) \<and>
    process_repositories ?C ?E [''app''] ()
      = (Inr (), (),
         [GET_tags ''app'', GET_manifest ''app'' ''v1'', GET_blob ''app'' ''sha256:config-v1'',
          DELETE_manifest ''app'' ''sha256:v1'', LOG INFO (Deleted_image ''app'' ''v1'' ''sha256:v1'')]) \<and>
    run_registry_garbage_collect ?E () = (Exit 1, ())"
    by code_simp
  note c = garbage_collection_order [of ?C ?E "()" "[''app'']" "()" "[GET_catalog]" "()" "()"
      "[GET_tags ''app'', GET_manifest ''app'' ''v1'', GET_blob ''app'' ''sha256:config-v1'',
        DELETE_manifest ''app'' ''sha256:v1'', LOG INFO (Deleted_image ''app'' ''v1'' ''sha256:v1'')]"
      1 "()", THEN conjunct2, THEN mp, OF h]
  have s: "remove_empty_repositories ?C ?E () = (Inr (), (), [GET_catalog, GET_tags ''app''])"
    by code_simp
  from c have c1: "snd (main ?C ?E ())
     = [GET_catalog, GET_tags ''app'', GET_manifest ''app'' ''v1'',
        GET_blob ''app'' ''sha256:config-v1'', DELETE_manifest ''app'' ''sha256:v1'',
        LOG INFO (Deleted_image ''app'' ''v1'' ''sha256:v1''),
        RUN_garbage_collect, LOG ERROR Garbage_collection_failed,
        GET_catalog, GET_tags ''app'']"
    by (simp add: s)
  from c have c2: "garbage_collections (snd (main ?C ?E ())) = 1"
    by (elim conjE)
  show ?thesis
    by (rule conjI [OF h conjI [OF c1 c2]])
qed


section \<open>The exclusion set\<close>

text \<open>
  While the repositories are processed, no request is about an excluded repository:
  line 126 returns before any fetch.
\<close>

lemma excluded_untouched_while_processing:
  assumes "e \<in> set (events (process_repositories C E repositories w))"
    and "request_repo e = Some repository"
  shows "repository \<notin> set (EXCLUDE_REPOS C)"
proof -
  from assms(1) process_repositories_about [of C E repositories w]
  obtain r where r: "r \<notin> set (EXCLUDE_REPOS C)" "about r e" by blast
  from r(2) assms(2) have "r = repository"
    by (cases e) (auto simp: about_def)
  with r(1) show ?thesis by simp
qed


text \<open>
  Claim C1 does not hold of the orphan sweep, which has no such test: it lists the tags of
  every repository of the catalog. Here the one repository \<^verbatim>\<open>keep\<close> is excluded. With a
  healthy registry the sweep requests its tag list; when that request is answered with
  503 the sweep also removes its directory.
\<close>

theorem sweep_fetches_excluded_repository:
  "main (sample_config [''keep''])
     (sample_env (Response 200 (Decoded (Some [''keep'']))) (Response 200 (Decoded (Some [''v1''])))
        (Response 202 Undecodable) (Exit 0)) ()
   = ((), [GET_catalog, RUN_garbage_collect, LOG INFO Garbage_collection_completed,
           GET_catalog, GET_tags ''keep''])
   \<and> main (sample_config [''keep''])
     (sample_env (Response 200 (Decoded (Some [''keep'']))) (Response 503 Undecodable)
        (Response 202 Undecodable) (Exit 0)) ()
   = ((), [GET_catalog, RUN_garbage_collect, LOG INFO Garbage_collection_completed,
           GET_catalog, GET_tags ''keep'',
           LOG INFO (Removing_orphaned_repository ''keep''),
           PATH_exists ''/var/lib/registry/docker/registry/v2/repositories/keep'',
           RUN_rm_rf ''/var/lib/registry/docker/registry/v2/repositories/keep'',
           LOG INFO (Orphaned_repository_removed ''keep'')])"
  by code_simp

section \<open>The creation timestamp\<close>

lemma digit_not_colon: "digit c \<Longrightarrow> c \<noteq> CHR '':''"
  by (auto simp: digit_def)

lemma colon_not_digit [simp]: "\<not> digit (CHR '':'')"
  by (simp add: digit_def)

lemma digit_not_newline: "digit c \<Longrightarrow> c \<noteq> CHR 0x0A"
  by (auto simp: digit_def)

lemma fixed_date_two_digit_minute:
  assumes "digit h1" "digit h2" "digit m1"
  shows "fixed_date (p @ [CHR ''+'', h1, h2, CHR '':'', m1, m2]) = p @ [CHR ''+'', h1, h2, CHR ''0'', m1]"
  using assms by (simp add: fixed_date_def butlast_append re_sub_offset_def digit_not_newline)

lemma fixed_date_one_digit_minute:
  "fixed_date (p @ [CHR ''+'', h1, h2, CHR '':'', m]) = p @ [CHR ''+'', h1, h2, CHR '':'']"
  by (cases "rev p") (simp_all add: fixed_date_def butlast_append re_sub_offset_def)

lemma fixed_date_Z: "fixed_date (p @ ''Z'') = re_sub_offset p"
  by (simp add: fixed_date_def butlast_append)

lemma digit_value_bounds: "digit c \<Longrightarrow> 0 \<le> digit_value c \<and> digit_value c \<le> 9"
  by (auto simp: digit_def digit_value_def)

lemma digit_value_zero: "digit c \<Longrightarrow> digit_value c = 0 \<longleftrightarrow> c = CHR ''0''"
  by (auto simp: digit_def digit_value_def)

lemma iso_offset_extended:
  assumes "digit h1" "digit h2" "digit m1" "digit m2"
  shows "iso_offset_minutes (p @ [CHR ''+'', h1, h2, CHR '':'', m1, m2])
    = Some ((10 * digit_value h1 + digit_value h2) * 60 + 10 * digit_value m1 + digit_value m2)"
  using assms by (simp add: iso_offset_minutes_def offset_of_fields_def)

lemma iso_offset_basic:
  assumes "digit h1" "digit h2" "digit m1"
  shows "iso_offset_minutes (p @ [CHR ''+'', h1, h2, CHR ''0'', m1])
    = Some ((10 * digit_value h1 + digit_value h2) * 60 + digit_value m1)"
proof -
  have z: "digit (CHR ''0'')" "digit_value (CHR ''0'') = 0"
    by (simp_all add: digit_def digit_value_def)
  have e: "extended_offset (m1 # CHR ''0'' # h2 # h1 # CHR ''+'' # rev p) = None"
    using assms(2) by (cases "rev p") (simp_all add: digit_not_colon)
  show ?thesis
    using assms z e by (simp add: iso_offset_minutes_def offset_of_fields_def)
qed

lemma naive_is_utc: "tzinfo dt = None \<Longrightarrow> instant dt = wall dt"
  by (simp add: instant_def)


text \<open>
  Claim C5 does not hold: the fix-up of line 84 is applied to the text without its last
  character. A timestamp whose offset ends in a single minute digit loses that digit
  before the pattern is looked for, the pattern does not match, and the parser is handed
  a text that ends in the colon: whatever the digit was, the same text. The pattern
  matches what the cut leaves of a well-formed offset instead: \<^verbatim>\<open>+05:30\<close> is handed
  to the parser as \<^verbatim>\<open>+0503\<close>.
\<close>

theorem single_digit_minute_is_cut:
  "fixed_date (p @ [CHR ''+'', h1, h2, CHR '':'', m]) = p @ [CHR ''+'', h1, h2, CHR '':'']
   \<and> fixed_date ''2024-01-01T00:00:00+05:3'' = ''2024-01-01T00:00:00+05:''
   \<and> fixed_date ''2024-01-01T00:00:00+05:7'' = ''2024-01-01T00:00:00+05:''
   \<and> fixed_date ''2024-01-01T00:00:00+05:30'' = ''2024-01-01T00:00:00+0503''"
proof (intro conjI)
  show "fixed_date (p @ [CHR ''+'', h1, h2, CHR '':'', m]) = p @ [CHR ''+'', h1, h2, CHR '':'']"
    by (rule fixed_date_one_digit_minute)
  show "fixed_date ''2024-01-01T00:00:00+05:3'' = ''2024-01-01T00:00:00+05:''"
    by code_simp
  show "fixed_date ''2024-01-01T00:00:00+05:7'' = ''2024-01-01T00:00:00+05:''"
    by code_simp
  show "fixed_date ''2024-01-01T00:00:00+05:30'' = ''2024-01-01T00:00:00+0503''"
    by code_simp
qed







end
